theory Spec2Isabelle
  imports Main "HOL-Library.Multiset"
begin

section \<open>Python text\<close>

text \<open>
  A Python \<open>str\<close> is a sequence of Unicode code points, so a text is a list of code points
  (integers, as \<open>ord\<close> gives them). ASCII literals are written with \<open>utext\<close>; the bullet marker U+2022 and
  the replacement character U+FFFD lie outside ASCII and are written as numbers.
\<close>

type_synonym str = "int list"

definition utext :: "string \<Rightarrow> str" where
  "utext s = map of_char s"

definition BULLET :: int where
  "BULLET = 8226"

definition REPLACEMENT_CHAR :: int where
  "REPLACEMENT_CHAR = 65533"

definition NEWLINE :: int where
  "NEWLINE = 10"

definition SPACE :: int where
  "SPACE = 32"

text \<open>
  The case mappings and the alphanumeric property of the code points beyond ASCII come from
  the Unicode database of the Python runtime, which is no part of the repository. They are
  parameters of the model. A case mapping of a code point may depend on what stands before
  and after it (\<open>str.lower\<close> maps a capital sigma by its position in the word) and may give
  several code points, so the parameter receives the text before, the code point and the
  text after. On ASCII the functions are fixed by the model itself.
\<close>

record unicode_db =
  lower_nonascii :: "str \<Rightarrow> int \<Rightarrow> str \<Rightarrow> str"
  upper_nonascii :: "str \<Rightarrow> int \<Rightarrow> str \<Rightarrow> str"
  alnum_nonascii :: "int \<Rightarrow> bool"

text \<open>A database in which no code point beyond ASCII has case or is alphanumeric.\<close>

definition ascii_db :: unicode_db where
  "ascii_db = \<lparr>lower_nonascii = (\<lambda>pre c post. [c]),
               upper_nonascii = (\<lambda>pre c post. [c]),
               alnum_nonascii = (\<lambda>c. False)\<rparr>"

definition ascii_upper_letter :: "int \<Rightarrow> bool" where
  "ascii_upper_letter c \<longleftrightarrow> 65 \<le> c \<and> c \<le> 90"

definition ascii_lower_letter :: "int \<Rightarrow> bool" where
  "ascii_lower_letter c \<longleftrightarrow> 97 \<le> c \<and> c \<le> 122"

definition ascii_digit :: "int \<Rightarrow> bool" where
  "ascii_digit c \<longleftrightarrow> 48 \<le> c \<and> c \<le> 57"

definition ascii_lower :: "int \<Rightarrow> int" where
  "ascii_lower c = (if ascii_upper_letter c then c + 32 else c)"

definition ascii_upper :: "int \<Rightarrow> int" where
  "ascii_upper c = (if ascii_lower_letter c then c - 32 else c)"

fun lower_from :: "unicode_db \<Rightarrow> str \<Rightarrow> str \<Rightarrow> str" where
  "lower_from U pre [] = []"
| "lower_from U pre (c # cs) =
     (if c < 128 then [ascii_lower c] else lower_nonascii U pre c cs)
       @ lower_from U (pre @ [c]) cs"

text \<open>\<open>s.lower()\<close>\<close>

definition py_lower :: "unicode_db \<Rightarrow> str \<Rightarrow> str" where
  "py_lower U s = lower_from U [] s"

fun upper_from :: "unicode_db \<Rightarrow> str \<Rightarrow> str \<Rightarrow> str" where
  "upper_from U pre [] = []"
| "upper_from U pre (c # cs) =
     (if c < 128 then [ascii_upper c] else upper_nonascii U pre c cs)
       @ upper_from U (pre @ [c]) cs"

text \<open>\<open>s.upper()\<close>\<close>

definition py_upper :: "unicode_db \<Rightarrow> str \<Rightarrow> str" where
  "py_upper U s = upper_from U [] s"

text \<open>
  The whitespace of \<open>str.strip\<close>, \<open>str.isspace\<close> and of \<open>\s\<close> in a \<open>str\<close> pattern: the
  code points U+0009 to U+000D, U+001C to U+0020, U+0085, U+00A0, U+1680, U+2000 to
  U+200A, U+2028, U+2029, U+202F, U+205F and U+3000.
\<close>

definition is_space :: "int \<Rightarrow> bool" where
  "is_space c \<longleftrightarrow>
     (9 \<le> c \<and> c \<le> 13) \<or> (28 \<le> c \<and> c \<le> 32) \<or> c = 133 \<or> c = 160 \<or> c = 5760 \<or>
     (8192 \<le> c \<and> c \<le> 8202) \<or> c = 8232 \<or> c = 8233 \<or> c = 8239 \<or> c = 8287 \<or> c = 12288"

text \<open>\<open>s.strip()\<close>\<close>

definition py_strip :: "str \<Rightarrow> str" where
  "py_strip s = rev (dropWhile is_space (rev (dropWhile is_space s)))"

text \<open>\<open>sep.join(xs)\<close>\<close>

fun py_join :: "str \<Rightarrow> str list \<Rightarrow> str" where
  "py_join sep [] = []"
| "py_join sep [x] = x"
| "py_join sep (x # y # ys) = x @ sep @ py_join sep (y # ys)"

text \<open>\<open>s.startswith(p)\<close>\<close>

definition startswith :: "str \<Rightarrow> str \<Rightarrow> bool" where
  "startswith s p \<longleftrightarrow> take (length p) s = p"

text \<open>\<open>sub in s\<close>\<close>

fun py_in :: "str \<Rightarrow> str \<Rightarrow> bool" where
  "py_in sub [] = (sub = [])"
| "py_in sub (c # cs) = (startswith (c # cs) sub \<or> py_in sub cs)"

text \<open>
  \<open>s.replace(old, new)\<close>: every occurrence of \<open>old\<close>, found from left to right without
  overlap, is replaced; an empty \<open>old\<close> matches before every code point and at the end.
\<close>

function py_replace :: "str \<Rightarrow> str \<Rightarrow> str \<Rightarrow> str" where
  "py_replace s old new =
     (if old = [] then new @ concat (map (\<lambda>c. c # new) s)
      else case s of
          [] \<Rightarrow> []
        | c # cs \<Rightarrow>
            if startswith s old then new @ py_replace (drop (length old) s) old new
            else c # py_replace cs old new)"
  by pat_completeness auto
termination
  by (relation "measure (\<lambda>(s, old, new). length s)") auto

text \<open>\<open>xs[:k]\<close>: a negative \<open>k\<close> counts from the end of the list.\<close>

definition py_slice_to :: "'a list \<Rightarrow> int \<Rightarrow> 'a list" where
  "py_slice_to xs k =
     (if k < 0 then take (nat (max 0 (int (length xs) + k))) xs else take (nat k) xs)"

text \<open>
  \<open>sorted(xs, key=f, reverse=True)\<close> and \<open>xs.sort(key=f, reverse=True)\<close>: descending by key,
  and stable, elements of equal key keep their order.
\<close>

definition sorted_reverse :: "('a \<Rightarrow> nat) \<Rightarrow> 'a list \<Rightarrow> 'a list" where
  "sorted_reverse f xs = sort_key (\<lambda>x. - int (f x)) xs"

section \<open>Regular expressions\<close>

text \<open>
  The patterns of the program use character classes, greedy repetition of a class, an
  optional letter, sequence, alternation, groups, the word boundary and the anchors. The
  matcher is the backtracking one of \<open>re\<close>: it returns every way to match at a position,
  in the order in which \<open>re\<close> tries them, and the first is the match.

  A matcher state is the text before the position (reversed), the text from the position
  on, and the groups captured so far.
\<close>

datatype regex =
    Eps
  | Class "int \<Rightarrow> bool"
  | Many nat "int \<Rightarrow> bool"
  | Opt regex
  | Seq regex regex
  | Alt regex regex
  | Group nat regex
  | Boundary "int \<Rightarrow> bool"
  | Bol
  | Eol

type_synonym mstate = "str \<times> str \<times> (nat \<times> str) list"

text \<open>
  \<open>many P n before rest\<close>: at least \<open>n\<close> code points of the class \<open>P\<close>, the longest run first
  (\<open>C*\<close> is \<open>Many 0 C\<close>, \<open>C+\<close> is \<open>Many 1 C\<close>, \<open>C{3,}\<close> is \<open>Many 3 C\<close>).
\<close>

fun many :: "(int \<Rightarrow> bool) \<Rightarrow> nat \<Rightarrow> str \<Rightarrow> str \<Rightarrow> (str \<times> str) list" where
  "many P n b [] = (if n = 0 then [(b, [])] else [])"
| "many P n b (c # cs) =
     (if P c then many P (n - 1) (c # b) cs else []) @ (if n = 0 then [(b, c # cs)] else [])"

fun rx :: "regex \<Rightarrow> mstate \<Rightarrow> mstate list" where
  "rx Eps s = [s]"
| "rx (Class P) (b, cs, g) =
     (case cs of [] \<Rightarrow> [] | c # cs' \<Rightarrow> if P c then [(c # b, cs', g)] else [])"
| "rx (Many n P) (b, cs, g) = map (\<lambda>(b', cs'). (b', cs', g)) (many P n b cs)"
| "rx (Opt r) s = rx r s @ [s]"
| "rx (Seq r1 r2) s = concat (map (rx r2) (rx r1 s))"
| "rx (Alt r1 r2) s = rx r1 s @ rx r2 s"
| "rx (Group i r) (b, cs, g) =
     map (\<lambda>(b', cs', g'). (b', cs', (i, rev (take (length b' - length b) b')) # g'))
       (rx r (b, cs, g))"
| "rx (Boundary W) (b, cs, g) =
     (if (case b of [] \<Rightarrow> False | p # _ \<Rightarrow> W p) \<noteq> (case cs of [] \<Rightarrow> False | n # _ \<Rightarrow> W n)
      then [(b, cs, g)] else [])"
| "rx Bol (b, cs, g) = (if b = [] then [(b, cs, g)] else [])"
| "rx Eol (b, cs, g) = (if cs = [] \<or> cs = [NEWLINE] then [(b, cs, g)] else [])"

text \<open>A match object: \<open>group(0)\<close> and the numbered groups.\<close>

record rmatch =
  group0 :: str
  groups :: "(nat \<times> str) list"

text \<open>\<open>m.group(i)\<close> for a group that took part in the match.\<close>

definition group :: "rmatch \<Rightarrow> nat \<Rightarrow> str" where
  "group m i = (case map_of (groups m) i of None \<Rightarrow> [] | Some t \<Rightarrow> t)"

lemma many_length:
  "(b', cs') \<in> set (many P n b cs) \<Longrightarrow> length cs' \<le> length cs"
  by (induction cs arbitrary: n b) (auto split: if_splits intro: le_SucI)

lemma rx_length:
  "(b', cs', g') \<in> set (rx r (b, cs, g)) \<Longrightarrow> length cs' \<le> length cs"
proof (induction r arbitrary: b cs g b' cs' g')
  case (Many n P)
  then show ?case by (auto dest: many_length)
next
  case (Seq r1 r2)
  from Seq.prems obtain b1 cs1 g1 where
    m1: "(b1, cs1, g1) \<in> set (rx r1 (b, cs, g))" and
    m2: "(b', cs', g') \<in> set (rx r2 (b1, cs1, g1))"
    by auto
  from Seq.IH(1) [OF m1] Seq.IH(2) [OF m2] show ?case by simp
qed (auto split: list.splits if_splits)

text \<open>
  The search loop shared by \<open>re.finditer\<close>, \<open>re.findall\<close>, \<open>re.sub\<close> and \<open>re.split\<close>: the first
  match at the leftmost position, then on from its end. After an empty match the next match
  at the same position has to be a non-empty one (\<open>adv\<close>). The result is the matches, each
  with the text between the match before it and itself, and the text after the last match.
\<close>

function scan :: "regex \<Rightarrow> bool \<Rightarrow> str \<Rightarrow> str \<Rightarrow> str \<Rightarrow> (str \<times> rmatch) list \<times> str" where
  "scan r adv b gap cs =
     (case filter (\<lambda>(b', cs', g'). \<not> adv \<or> length cs' < length cs) (rx r (b, cs, [])) of
        [] \<Rightarrow>
          (case cs of
             [] \<Rightarrow> ([], gap)
           | c # cs'' \<Rightarrow> scan r False (c # b) (gap @ [c]) cs'')
      | (b', cs', g') # _ \<Rightarrow>
          (let m = \<lparr>group0 = take (length cs - length cs') cs, groups = g'\<rparr>;
               (ms, rest) = scan r (length cs' = length cs) b' [] cs'
           in ((gap, m) # ms, rest)))"
  by pat_completeness auto
termination
proof (relation "measures [\<lambda>(r, adv, b, gap, cs). length cs,
                            \<lambda>(r, adv, b, gap, cs). if adv then 0 else 1]", goal_cases)
  case 1
  show ?case by simp
next
  case (2 r adv b gap cs c cs'')
  then show ?case by simp
next
  case (3 r adv b gap cs x xs b' rest cs' g' m)
  have "(b', cs', g') \<in> set (filter (\<lambda>(b', cs', g'). \<not> adv \<or> length cs' < length cs)
                                (rx r (b, cs, [])))"
    using 3 by simp
  then have mem: "(b', cs', g') \<in> set (rx r (b, cs, []))" and
    adv: "\<not> adv \<or> length cs' < length cs"
    by auto
  from rx_length [OF mem] adv show ?case by auto
qed

definition finditer :: "regex \<Rightarrow> str \<Rightarrow> rmatch list" where
  "finditer r s = map snd (fst (scan r False [] [] s))"

text \<open>\<open>re.findall\<close> for a pattern without groups.\<close>

definition findall :: "regex \<Rightarrow> str \<Rightarrow> str list" where
  "findall r s = map group0 (finditer r s)"

text \<open>\<open>re.sub(r, repl, s)\<close> for a replacement without group references.\<close>

definition re_sub :: "regex \<Rightarrow> str \<Rightarrow> str \<Rightarrow> str" where
  "re_sub r repl s =
     (case scan r False [] [] s of
        (ms, rest) \<Rightarrow> concat (map (\<lambda>(gap, m). gap @ repl) ms) @ rest)"

text \<open>\<open>re.split(r, s)\<close> for a pattern without groups.\<close>

definition re_split :: "regex \<Rightarrow> str \<Rightarrow> str list" where
  "re_split r s = (case scan r False [] [] s of (ms, rest) \<Rightarrow> map fst ms @ [rest])"

section \<open>The keyword ranker\<close>

definition ascii_letter :: "int \<Rightarrow> bool" where
  "ascii_letter c \<longleftrightarrow> ascii_upper_letter c \<or> ascii_lower_letter c"

text \<open>
  \<open>\w\<close> in a \<open>str\<close> pattern: the alphanumeric code points and the underscore. It decides
  where \<open>\b\<close> matches.
\<close>

definition is_word :: "unicode_db \<Rightarrow> int \<Rightarrow> bool" where
  "is_word U c \<longleftrightarrow>
     (if c < 128 then ascii_letter c \<or> ascii_digit c \<or> c = 95 else alnum_nonascii U c)"

text \<open>The pattern \<^verbatim>\<open>\b[a-zA-Z]{3,}\b\<close>.\<close>

definition word_pattern :: "unicode_db \<Rightarrow> regex" where
  "word_pattern U = Seq (Boundary (is_word U)) (Seq (Many 3 ascii_letter) (Boundary (is_word U)))"

definition stop_words :: "str list" where
  "stop_words = map utext
     [''the'', ''and'', ''or'', ''but'', ''in'', ''on'', ''at'', ''to'', ''for'', ''of'', ''with'',
      ''by'', ''is'', ''are'', ''was'', ''were'', ''be'', ''been'', ''have'', ''has'', ''had'',
      ''do'', ''does'', ''did'', ''will'', ''would'', ''could'', ''should'', ''may'', ''might'',
      ''can'', ''this'', ''that'', ''these'', ''those'', ''a'', ''an'', ''as'', ''from'', ''not'',
      ''all'', ''any'', ''each'', ''every'', ''no'', ''some'', ''such'', ''than'', ''too'', ''very'']"

text \<open>
  The lines 82 to 93 of \<open>extract_keywords\<close>: the words of the lowered text that are no stop
  words, in the order of the text.
\<close>

definition surviving_words :: "unicode_db \<Rightarrow> str \<Rightarrow> str list" where
  "surviving_words U t =
     filter (\<lambda>word. word \<notin> set stop_words) (findall (word_pattern U) (py_lower U t))"

text \<open>
  The dictionary \<open>word_counts\<close> keeps its keys in the order of their insertion, and the
  sort below depends on that order: it is an association list.
\<close>

fun dict_get :: "('k \<times> 'v) list \<Rightarrow> 'k \<Rightarrow> 'v \<Rightarrow> 'v" where
  "dict_get [] k d = d"
| "dict_get ((k', v) # kvs) k d = (if k' = k then v else dict_get kvs k d)"

fun dict_set :: "('k \<times> 'v) list \<Rightarrow> 'k \<Rightarrow> 'v \<Rightarrow> ('k \<times> 'v) list" where
  "dict_set [] k v = [(k, v)]"
| "dict_set ((k', v') # kvs) k v =
     (if k' = k then (k', v) # kvs else (k', v') # dict_set kvs k v)"

fun count_words :: "(str \<times> nat) list \<Rightarrow> str list \<Rightarrow> (str \<times> nat) list" where
  "count_words word_counts [] = word_counts"
| "count_words word_counts (word # words) =
     count_words (dict_set word_counts word (dict_get word_counts word 0 + 1)) words"

text \<open>
  \<open>extract_keywords(text, top_k)\<close>. On a string and an integer no step of the body raises,
  so the handler of the function, which returns the empty list, is never entered.
\<close>

definition extract_keywords :: "unicode_db \<Rightarrow> str \<Rightarrow> int \<Rightarrow> str list" where
  "extract_keywords U t top_k =
     (let words = surviving_words U t in
      if words = [] then []
      else
        let word_counts = count_words [] words;
            sorted_words = sorted_reverse snd word_counts
        in map fst (py_slice_to sorted_words top_k))"

text \<open>The default \<open>top_k=10\<close>.\<close>

definition extract_keywords_default :: "unicode_db \<Rightarrow> str \<Rightarrow> str list" where
  "extract_keywords_default U t = extract_keywords U t 10"

text \<open>
  The notions in which the ranking is stated: the position of the first occurrence of a word
  in a list of words, and the order of the ranking, by falling frequency and, among words of
  one frequency, by first occurrence.
\<close>

definition first_index :: "'a list \<Rightarrow> 'a \<Rightarrow> nat" where
  "first_index xs a = length (takeWhile (\<lambda>x. x \<noteq> a) xs)"

definition ranks_before :: "'a list \<Rightarrow> 'a \<Rightarrow> 'a \<Rightarrow> bool" where
  "ranks_before ws a b \<longleftrightarrow>
     count_list ws b < count_list ws a \<or>
     (count_list ws a = count_list ws b \<and> first_index ws a < first_index ws b)"

text \<open>The whole ranking, before the slice: the keys of the sorted dictionary.\<close>

definition ranking :: "str list \<Rightarrow> str list" where
  "ranking ws = map fst (sorted_reverse snd (count_words [] ws))"

section \<open>The section rewriter\<close>

text \<open>
  Under \<open>re.IGNORECASE\<close> a letter of a \<open>str\<close> pattern matches its two ASCII forms, and the
  letters I, S and K match the four code points beyond ASCII that the documentation of \<open>re\<close>
  names: U+0130, U+0131, U+017F and U+212A. A code point without case matches itself.
\<close>

definition ci_letter :: "int \<Rightarrow> int \<Rightarrow> bool" where
  "ci_letter p c \<longleftrightarrow>
     c = ascii_upper p \<or> c = ascii_lower p \<or>
     (ascii_lower p = 105 \<and> (c = 304 \<or> c = 305)) \<or>
     (ascii_lower p = 115 \<and> c = 383) \<or>
     (ascii_lower p = 107 \<and> c = 8490)"

definition literal_ci :: "string \<Rightarrow> regex" where
  "literal_ci s = foldr (\<lambda>p r. Seq (Class (ci_letter p)) r) (utext s) Eps"

text \<open>The optional plural: \<^verbatim>\<open>S?\<close>.\<close>

definition opt_s :: regex where
  "opt_s = Opt (Class (ci_letter 83))"

text \<open>\<^verbatim>\<open>(header)[:\s]*([^\<bullet>\n]+)\<close>, the bullet being U+2022.\<close>

definition section_pattern :: "regex \<Rightarrow> regex" where
  "section_pattern header =
     Seq (Group 1 header)
       (Seq (Many 0 (\<lambda>c. c = 58 \<or> is_space c))
          (Group 2 (Many 1 (\<lambda>c. c \<noteq> BULLET \<and> c \<noteq> NEWLINE))))"

definition skill_patterns :: "regex list" where
  "skill_patterns =
     [section_pattern
        (Alt (Seq (literal_ci ''TECHNICAL SKILL'') opt_s)
        (Alt (Seq (literal_ci ''SKILL'') opt_s)
        (Alt (Seq (literal_ci ''TECHNOLOGIE'') opt_s)
        (Alt (Seq (literal_ci ''PROGRAMMING LANGUAGE'') opt_s)
        (Alt (Seq (literal_ci ''TOOL'') opt_s)
             (Seq (literal_ci ''FRAMEWORK'') opt_s)))))),
      section_pattern
        (Alt (Seq (literal_ci ''LANGUAGE'') opt_s)
             (literal_ci ''PROGRAMMING'')),
      section_pattern
        (Alt (Seq (literal_ci ''FRAMEWORK'') opt_s)
        (Alt (Seq (literal_ci ''LIBRARIE'') opt_s)
             (Seq (literal_ci ''TOOL'') opt_s)))]"

text \<open>\<^verbatim>\<open>[,;\<bullet>\n]+\<close>\<close>

definition delimiter :: "int \<Rightarrow> bool" where
  "delimiter c \<longleftrightarrow> c = 44 \<or> c = 59 \<or> c = BULLET \<or> c = NEWLINE"

definition item_delimiters :: regex where
  "item_delimiters = Many 1 delimiter"

text \<open>The items of a section: split at the delimiters, stripped, the empty ones dropped.\<close>

definition split_items :: "str \<Rightarrow> str list" where
  "split_items section_content =
     (let items = re_split item_delimiters section_content
      in map py_strip (filter (\<lambda>item. py_strip item \<noteq> []) items))"

text \<open>The score of an item: the number of keywords that it contains, both in lower case.\<close>

definition score_item :: "unicode_db \<Rightarrow> str list \<Rightarrow> str \<Rightarrow> nat" where
  "score_item U keywords item =
     length (filter (\<lambda>keyword. py_in (py_lower U keyword) (py_lower U item)) keywords)"

text \<open>The items in their new order: by score, the highest first, by a stable sort.\<close>

definition reorder_items :: "unicode_db \<Rightarrow> str list \<Rightarrow> str list \<Rightarrow> str list" where
  "reorder_items U keywords items =
     (let scored_items = map (\<lambda>item. (item, score_item U keywords item)) items;
          scored_items = sorted_reverse snd scored_items
      in map fst scored_items)"

definition new_section :: "unicode_db \<Rightarrow> str list \<Rightarrow> rmatch \<Rightarrow> str" where
  "new_section U keywords m =
     (let section_header = group m 1;
          new_content = py_join (utext '', '') (reorder_items U keywords (split_items (group m 2)))
      in section_header @ utext '': '' @ new_content)"

text \<open>
  The body of the inner loop of \<open>polish_resume\<close>, for one match: the text, rewritten. A
  section without items is skipped (\<open>continue\<close>).
\<close>

definition rewrite_section :: "unicode_db \<Rightarrow> str list \<Rightarrow> str \<Rightarrow> rmatch \<Rightarrow> str" where
  "rewrite_section U keywords polished_text m =
     (if split_items (group m 2) = [] then polished_text
      else py_replace polished_text (group0 m) (new_section U keywords m))"

text \<open>
  The body of the outer loop, for one pattern. The matches are those of the text as it is
  when the pattern is applied; the rewriting of one match does not change the matches that
  follow it, since \<open>re.finditer\<close> keeps the text that it received.
\<close>

definition rewrite_pattern :: "unicode_db \<Rightarrow> str list \<Rightarrow> str \<Rightarrow> regex \<Rightarrow> str" where
  "rewrite_pattern U keywords polished_text pattern =
     foldl (rewrite_section U keywords) polished_text (finditer pattern polished_text)"

definition tailored_header :: "unicode_db \<Rightarrow> str list \<Rightarrow> str \<Rightarrow> str \<Rightarrow> str" where
  "tailored_header U keywords job_title company_name =
     (let top_keywords_str = py_join (utext '', '') (py_slice_to keywords 5)
      in [NEWLINE, NEWLINE] @ utext ''TAILORED FOR '' @ py_upper U job_title @ utext '' AT ''
           @ py_upper U company_name @ utext '': '' @ top_keywords_str @ [NEWLINE]
           @ replicate 80 61 @ [NEWLINE])"

text \<open>
  An exception, with its message. The program tells the exceptions of the \<open>requests\<close>
  library from all others.
\<close>

datatype exn = RequestException str | OtherException str

text \<open>
  \<open>polish_resume\<close>: the body of the \<open>try\<close> and the handler, which returns the text that the
  function received. On strings and a list of strings no step of the body raises.
\<close>

definition polish_resume_body :: "unicode_db \<Rightarrow> str \<Rightarrow> str list \<Rightarrow> str \<Rightarrow> str \<Rightarrow> exn + str" where
  "polish_resume_body U resume_text keywords job_title company_name =
     (let polished_text = foldl (rewrite_pattern U keywords) resume_text skill_patterns;
          header = tailored_header U keywords job_title company_name
      in Inr (header @ polished_text))"

definition polish_resume_handler :: "str \<Rightarrow> exn + str \<Rightarrow> str" where
  "polish_resume_handler resume_text outcome =
     (case outcome of
        Inr polished \<Rightarrow> polished
      | Inl e \<Rightarrow> resume_text)"

definition polish_resume :: "unicode_db \<Rightarrow> str \<Rightarrow> str list \<Rightarrow> str \<Rightarrow> str \<Rightarrow> str" where
  "polish_resume U resume_text keywords job_title company_name =
     polish_resume_handler resume_text
       (polish_resume_body U resume_text keywords job_title company_name)"

text \<open>
  The substitution as the specification words it, for comparison with the code: only the
  first occurrence of \<open>old\<close> is replaced (\<open>s.replace(old, new, 1)\<close>).
\<close>

fun replace_first_occurrence :: "str \<Rightarrow> str \<Rightarrow> str \<Rightarrow> str" where
  "replace_first_occurrence [] old new = (if old = [] then new else [])"
| "replace_first_occurrence (c # cs) old new =
     (if startswith (c # cs) old then new @ drop (length old) (c # cs)
      else c # replace_first_occurrence cs old new)"

section \<open>The text normalizer\<close>

text \<open>\<^verbatim>\<open>\s+\<close>\<close>

definition whitespace_run :: regex where
  "whitespace_run = Many 1 is_space"

text \<open>The lines 63 to 70 of \<open>extract_pdf_text\<close>: the cleaning of the extracted text.\<close>

definition clean_text :: "str \<Rightarrow> str" where
  "clean_text t0 =
     (let t1 = py_replace t0 [REPLACEMENT_CHAR] [BULLET];
          t2 = py_replace t1 [0] [];
          t3 = re_sub whitespace_run [SPACE] t2;
          t4 = py_replace t3 [BULLET] [SPACE, BULLET, SPACE]
      in py_strip t4)"

text \<open>
  \<open>extract_pdf_text\<close>: the reading of the file with \<open>PyPDF2\<close> is outside the repository; its
  outcome, the texts of the pages or an exception, is the argument. An exception gives the
  empty text.
\<close>

definition extract_pdf_text :: "exn + str list \<Rightarrow> str" where
  "extract_pdf_text pages =
     (case pages of
        Inl e \<Rightarrow> []
      | Inr page_texts \<Rightarrow> clean_text (concat (map (\<lambda>page. page @ [NEWLINE]) page_texts)))"

text \<open>
  The notions in which the normal form is stated. \<open>single_spaced\<close>: no two whitespace code
  points stand side by side. \<open>bullets_spaced\<close>: wherever a bullet has a neighbour, before it
  or after it, that neighbour is a space.
\<close>

definition single_spaced :: "str \<Rightarrow> bool" where
  "single_spaced s = successively (\<lambda>a b. \<not> (is_space a \<and> is_space b)) s"

definition bullets_spaced :: "str \<Rightarrow> bool" where
  "bullets_spaced s =
     successively (\<lambda>a b. (a = BULLET \<longrightarrow> b = SPACE) \<and> (b = BULLET \<longrightarrow> a = SPACE)) s"

text \<open>
  \<open>padding_only\<close>: two whitespace code points stand side by side only where a bullet is
  padded, the first of the two directly after a bullet or the second directly before one.
  The first argument is the code point before the text, if there is one.
\<close>

fun padding_only :: "int option \<Rightarrow> str \<Rightarrow> bool" where
  "padding_only p (a # b # cs) =
     ((is_space a \<and> is_space b \<longrightarrow> p = Some BULLET \<or> take 1 cs = [BULLET]) \<and>
      padding_only (Some a) (b # cs))"
| "padding_only p [a] = True"
| "padding_only p [] = True"

text \<open>What the replacement of the bullet by \<open>' \<bullet> '\<close> does to one code point.\<close>

definition pad :: "int \<Rightarrow> str" where
  "pad c = (if c = BULLET then [SPACE, BULLET, SPACE] else [c])"

text \<open>
  What \<open>re.sub\<close> does with the pattern of a run of a class, \<open>C+\<close>, by a direct recursion:
  each longest run of the class is replaced.
\<close>

function collapse :: "(int \<Rightarrow> bool) \<Rightarrow> str \<Rightarrow> str \<Rightarrow> str" where
  "collapse P repl [] = []"
| "collapse P repl (c # cs) =
     (if P c then repl @ collapse P repl (dropWhile P cs) else c # collapse P repl cs)"
  by pat_completeness auto
termination
  by (relation "measure (\<lambda>(P, repl, cs). length cs)")
     (auto simp: length_dropWhile_le le_imp_less_Suc)

section \<open>The cover letter generator\<close>

definition OLLAMA_URL :: str where
  "OLLAMA_URL = utext ''http://localhost:11434/api/generate''"

definition OLLAMA_MODEL :: str where
  "OLLAMA_MODEL = utext ''llama3:8b''"

record payload =
  model :: str
  prompt :: str
  stream :: bool

text \<open>
  The response of \<open>requests.post\<close>: the status code, and the outcome of \<open>response.json()\<close>,
  an exception or the JSON object with its string members.
\<close>

record response =
  status_code :: int
  json :: "exn + (str \<times> str) list"

text \<open>\<open>str(e)\<close> of an exception.\<close>

fun message :: "exn \<Rightarrow> str" where
  "message (RequestException msg) = msg"
| "message (OtherException msg) = msg"

text \<open>\<open>str(i)\<close> of an integer, as an f-string formats it.\<close>

function digits :: "int \<Rightarrow> str" where
  "digits n = (if n < 10 then [48 + n] else digits (n div 10) @ [48 + n mod 10])"
  by pat_completeness auto
termination
  by (relation "measure nat") auto

definition py_str_int :: "int \<Rightarrow> str" where
  "py_str_int i = (if i < 0 then 45 # digits (- i) else digits i)"

definition cover_prompt :: "str \<Rightarrow> str \<Rightarrow> str \<Rightarrow> str \<Rightarrow> str \<Rightarrow> str" where
  "cover_prompt resume_text cover_template job_title company_name job_description =
     utext ''Based on the following resume:'' @ [NEWLINE] @ resume_text @ [NEWLINE, NEWLINE]
     @ utext ''And this example cover letter structure and style:'' @ [NEWLINE]
     @ cover_template @ [NEWLINE, NEWLINE]
     @ utext ''Generate a completely unique, personalized cover letter for the position of ''
     @ job_title @ utext '' at '' @ company_name @ utext ''. The job description is:''
     @ [NEWLINE] @ job_description @ [NEWLINE, NEWLINE]
     @ utext ''Highlight relevant experiences, skills, and achievements from the resume ''
     @ utext ''that match the job. Keep the tone professional, enthusiastic, and aligned ''
     @ utext ''with the example'' @ [39] @ utext ''s spirit. Structure it with header, date, ''
     @ utext ''greeting (Dear '' @ company_name @ utext '' Team,), body paragraphs, and ''
     @ utext ''closing. Do not fabricate any information.''"

text \<open>
  \<open>generate_cover_with_ollama\<close>. The call \<open>requests.post\<close> is outside the repository: it is
  the parameter \<open>post\<close>, which gives a response or raises. The inner \<open>case\<close> is the body of
  the \<open>try\<close>, the outer one the two handlers.
\<close>

definition cover_payload :: "str \<Rightarrow> str \<Rightarrow> str \<Rightarrow> str \<Rightarrow> str \<Rightarrow> payload" where
  "cover_payload resume_text cover_template job_title company_name job_description =
     \<lparr>model = OLLAMA_MODEL,
      prompt = cover_prompt resume_text cover_template job_title company_name job_description,
      stream = False\<rparr>"

definition generate_cover_with_ollama ::
  "(str \<Rightarrow> payload \<Rightarrow> exn + response) \<Rightarrow> str \<Rightarrow> str \<Rightarrow> str \<Rightarrow> str \<Rightarrow> str \<Rightarrow> str" where
  "generate_cover_with_ollama post resume_text cover_template job_title company_name
       job_description =
     (let payload = cover_payload resume_text cover_template job_title company_name
                      job_description
      in case (case post OLLAMA_URL payload of
                 Inl e \<Rightarrow> Inl e
               | Inr response \<Rightarrow>
                   if status_code response = 200 then
                     (case json response of
                        Inl e \<Rightarrow> Inl e
                      | Inr result \<Rightarrow> Inr (dict_get result (utext ''response'') []))
                   else Inr (utext ''Error generating cover letter: Ollama API returned ''
                             @ py_str_int (status_code response)))
         of
           Inr generated \<Rightarrow> generated
         | Inl (RequestException msg) \<Rightarrow>
             utext ''Error: Could not connect to Ollama. Please ensure Ollama is running on ''
             @ OLLAMA_URL
         | Inl (OtherException msg) \<Rightarrow> utext ''Error generating cover letter: '' @ msg)"

section \<open>The document renderer\<close>

text \<open>\<open>s.split(sep)\<close> at a separator of one code point.\<close>

fun split_from :: "int \<Rightarrow> str \<Rightarrow> str \<Rightarrow> str list" where
  "split_from sep cur [] = [cur]"
| "split_from sep cur (c # cs) =
     (if c = sep then cur # split_from sep [] cs else split_from sep (cur @ [c]) cs)"

definition py_split :: "str \<Rightarrow> int \<Rightarrow> str list" where
  "py_split s sep = split_from sep [] s"

text \<open>\<open>re.match(r, s)\<close>, as a truth value: a match at the start of the text.\<close>

definition re_match :: "regex \<Rightarrow> str \<Rightarrow> bool" where
  "re_match r s \<longleftrightarrow> rx r ([], s, []) \<noteq> []"

text \<open>\<^verbatim>\<open>^[A-Z\s]+:$\<close>\<close>

definition heading_pattern :: regex where
  "heading_pattern =
     Seq Bol (Seq (Many 1 (\<lambda>c. ascii_upper_letter c \<or> is_space c))
       (Seq (Class (\<lambda>c. c = 58)) Eol))"

text \<open>
  The calls that \<open>create_pdf\<close> makes on the \<open>FPDF\<close> object. The library is outside the
  repository: the parameter \<open>fpdf\<close> runs the calls and tells whether one of them raised.
\<close>

datatype pdf_call =
    Add_page
  | Set_font str str int
  | Cell int int str bool str
  | Ln int
  | Multi_cell int int str
  | Output str

definition line_calls :: "str \<Rightarrow> pdf_call list" where
  "line_calls line =
     (if py_strip line \<noteq> [] then
        (if re_match heading_pattern (py_strip line) then
           [Set_font (utext ''Arial'') (utext ''B'') 12,
            Cell 200 8 (py_strip line) True [],
            Set_font (utext ''Arial'') [] 12]
         else [Multi_cell 0 8 (py_strip line)])
        @ [Ln 2]
      else [])"

definition create_pdf ::
  "(pdf_call list \<Rightarrow> exn + unit) \<Rightarrow> str \<Rightarrow> str \<Rightarrow> str \<Rightarrow> bool" where
  "create_pdf fpdf t filename title =
     (let lines = py_split t NEWLINE;
          calls = [Add_page,
                   Set_font (utext ''Arial'') [] 12,
                   Set_font (utext ''Arial'') (utext ''B'') 16,
                   Cell 200 10 title True (utext ''C''),
                   Ln 10,
                   Set_font (utext ''Arial'') [] 12]
                  @ concat (map line_calls lines)
                  @ [Output filename]
      in case fpdf calls of Inr u \<Rightarrow> True | Inl e \<Rightarrow> False)"

section \<open>The tailoring orchestrator\<close>

definition UPLOAD_FOLDER :: str where
  "UPLOAD_FOLDER = utext ''uploads''"

definition USER_ID :: str where
  "USER_ID = utext ''default_user''"

text \<open>\<open>os.path.join\<close> of relative names.\<close>

definition path_join :: "str list \<Rightarrow> str" where
  "path_join parts = py_join (utext ''/'') parts"

text \<open>
  What a request meets: the form that was sent, the text files of the templates (absent, or
  present with the outcome of reading them), the text generator, the \<open>FPDF\<close> library, the
  writing of the archive (the path of the archive and the files with their names in it),
  and the time stamp \<open>datetime.now().strftime("%Y%m%d_%H%M%S")\<close>.
\<close>

record env =
  form :: "(str \<times> str) list"
  text_files :: "str \<Rightarrow> (exn + str) option"
  post :: "str \<Rightarrow> payload \<Rightarrow> exn + response"
  fpdf :: "pdf_call list \<Rightarrow> exn + unit"
  zip_write :: "str \<Rightarrow> (str \<times> str) list \<Rightarrow> exn + unit"
  now :: str

text \<open>
  The reply: an error with its status code, or the success with the paths of the two
  documents and of the archive and the keywords.
\<close>

datatype reply =
    Error_reply int str
  | Success_reply str str str "str list"

text \<open>
  The steps of the pipeline that a request went through, in their order, each with what it
  worked on: the ranking (job description, \<open>top_k\<close>), the rewriting (keywords), the
  generation, the rendering of a document (text, file, title) and the bundling (archive,
  files).
\<close>

datatype call =
    Extract_keywords str int
  | Polish_resume "str list"
  | Generate_cover
  | Create_pdf str str str
  | Zip_write str "str list"

text \<open>\<open>request.form.get(name, '').strip()\<close>\<close>

definition form_field :: "env \<Rightarrow> string \<Rightarrow> str" where
  "form_field env name = py_strip (dict_get (form env) (utext name) [])"

text \<open>The paths that \<open>process_job\<close> builds with \<open>os.path.join\<close>.\<close>

definition resume_text_path :: str where
  "resume_text_path = path_join [UPLOAD_FOLDER, utext ''texts'', USER_ID @ utext ''_resume.txt'']"

definition cover_text_path :: str where
  "cover_text_path =
     path_join [UPLOAD_FOLDER, utext ''texts'', USER_ID @ utext ''_cover_letter.txt'']"

definition resume_pdf_name :: "str \<Rightarrow> str" where
  "resume_pdf_name timestamp = utext ''tailored_resume_'' @ timestamp @ utext ''.pdf''"

definition cover_pdf_name :: "str \<Rightarrow> str" where
  "cover_pdf_name timestamp = utext ''tailored_cover_'' @ timestamp @ utext ''.pdf''"

definition zip_name :: "str \<Rightarrow> str" where
  "zip_name timestamp = utext ''job_package_'' @ timestamp @ utext ''.zip''"

text \<open>
  \<open>process_job\<close>. The reply comes with the steps of the pipeline that were run. The name of
  a document inside the archive is its \<open>os.path.basename\<close>, the file name that was joined
  to the folder (the time stamp holds digits and an underscore only). An exception of the
  reading of a template or of the writing of the archive reaches the handler of the
  function, which replies with the status 500.
\<close>

definition process_job :: "unicode_db \<Rightarrow> env \<Rightarrow> reply \<times> call list" where
  "process_job U env =
     (let job_title = form_field env ''job_title'';
          company_name = form_field env ''company_name'';
          job_description = form_field env ''job_description''
      in
      if \<not> (job_title \<noteq> [] \<and> company_name \<noteq> [] \<and> job_description \<noteq> []) then
        (Error_reply 400 (utext ''All fields are required''), [])
      else
        case text_files env resume_text_path of
          None \<Rightarrow>
            (Error_reply 400
               (utext ''Resume template not found. Please upload a resume first.''), [])
        | Some resume_file \<Rightarrow>
        case text_files env cover_text_path of
          None \<Rightarrow>
            (Error_reply 400
               (utext ''Cover letter template not found. Please upload a cover letter first.''),
             [])
        | Some cover_file \<Rightarrow>
        case resume_file of
          Inl e \<Rightarrow> (Error_reply 500 (utext ''Processing failed: '' @ message e), [])
        | Inr resume_text \<Rightarrow>
        case cover_file of
          Inl e \<Rightarrow> (Error_reply 500 (utext ''Processing failed: '' @ message e), [])
        | Inr cover_template \<Rightarrow>
            let keywords = extract_keywords U job_description 10;
                polished_resume = polish_resume U resume_text keywords job_title company_name;
                generated_cover =
                  generate_cover_with_ollama (post env) resume_text cover_template job_title
                    company_name job_description;
                timestamp = now env;
                resume_pdf_path = path_join [UPLOAD_FOLDER, resume_pdf_name timestamp];
                cover_pdf_path = path_join [UPLOAD_FOLDER, cover_pdf_name timestamp];
                resume_title = utext ''Tailored Resume - '' @ job_title;
                cover_title = utext ''Cover Letter - '' @ job_title;
                resume_success =
                  create_pdf (fpdf env) polished_resume resume_pdf_path resume_title;
                cover_success =
                  create_pdf (fpdf env) generated_cover cover_pdf_path cover_title;
                calls = [Extract_keywords job_description 10,
                         Polish_resume keywords,
                         Generate_cover,
                         Create_pdf polished_resume resume_pdf_path resume_title,
                         Create_pdf generated_cover cover_pdf_path cover_title]
            in
            if \<not> resume_success \<or> \<not> cover_success then
              (Error_reply 500 (utext ''Failed to create PDF files''), calls)
            else
              let zip_path = path_join [UPLOAD_FOLDER, zip_name timestamp];
                  members = [(resume_pdf_path, resume_pdf_name timestamp),
                             (cover_pdf_path, cover_pdf_name timestamp)];
                  calls = calls @ [Zip_write zip_path [resume_pdf_path, cover_pdf_path]]
              in
              case zip_write env zip_path members of
                Inl e \<Rightarrow> (Error_reply 500 (utext ''Processing failed: '' @ message e), calls)
              | Inr u \<Rightarrow>
                  (Success_reply resume_pdf_path cover_pdf_path zip_path keywords, calls))"

text \<open>
  Requests on which the properties of the orchestrator are tried: a form with all fields, a
  form whose job title is blank, the two templates, a text generator that cannot be
  reached and one that answers with the status 500, and a library and an archive writer
  that succeed.
\<close>

definition demo_form :: "(str \<times> str) list" where
  "demo_form =
     [(utext ''job_title'', utext '' Developer ''),
      (utext ''company_name'', utext ''Acme''),
      (utext ''job_description'', utext ''Python and Flask'')]"

definition demo_resume :: str where
  "demo_resume = utext ''SKILLS: Java, Python''"

definition demo_cover :: str where
  "demo_cover = utext ''Dear team''"

definition demo_files :: "str \<Rightarrow> (exn + str) option" where
  "demo_files path =
     (if path = resume_text_path then Some (Inr demo_resume)
      else if path = cover_text_path then Some (Inr demo_cover)
      else None)"

definition demo_env :: env where
  "demo_env =
     \<lparr>form = demo_form,
      text_files = demo_files,
      post = (\<lambda>url payload. Inl (RequestException (utext ''connection refused''))),
      fpdf = (\<lambda>calls. Inr ()),
      zip_write = (\<lambda>path members. Inr ()),
      now = utext ''20240102_030405''\<rparr>"

definition demo_env_500 :: env where
  "demo_env_500 =
     demo_env\<lparr>post := (\<lambda>url payload.
        Inr \<lparr>status_code = 500, json = Inl (OtherException (utext ''no JSON''))\<rparr>)\<rparr>"

definition demo_env_blank_title :: env where
  "demo_env_blank_title =
     demo_env\<lparr>form := [(utext ''job_title'', utext ''   ''),
                        (utext ''company_name'', utext ''Acme''),
                        (utext ''job_description'', utext ''Python and Flask'')]\<rparr>"

definition demo_env_no_resume :: env where
  "demo_env_no_resume = demo_env\<lparr>text_files := (\<lambda>path. None)\<rparr>"

definition demo_env_no_cover :: env where
  "demo_env_no_cover =
     demo_env\<lparr>text_files := (\<lambda>path.
        if path = resume_text_path then Some (Inr demo_resume) else None)\<rparr>"

section \<open>Properties of the text functions\<close>

lemma py_replace_Nil: "old \<noteq> [] \<Longrightarrow> py_replace [] old new = []"
  by simp

lemma py_replace_hit:
  "old \<noteq> [] \<Longrightarrow> s \<noteq> [] \<Longrightarrow> startswith s old \<Longrightarrow>
     py_replace s old new = new @ py_replace (drop (length old) s) old new"
  by (cases s) (simp_all del: py_replace.simps add: py_replace.simps [of "_ # _"])

lemma py_replace_miss:
  "old \<noteq> [] \<Longrightarrow> \<not> startswith (c # cs) old \<Longrightarrow>
     py_replace (c # cs) old new = c # py_replace cs old new"
  by (simp del: py_replace.simps add: py_replace.simps [of "_ # _"])

lemma startswith_single: "startswith (c # cs) [x] \<longleftrightarrow> c = x"
  by (simp add: startswith_def)

lemma py_replace_single:
  "py_replace s [x] new = concat (map (\<lambda>c. if c = x then new else [c]) s)"
proof (induction s)
  case Nil
  show ?case by simp
next
  case (Cons c s)
  show ?case
  proof (cases "c = x")
    case True
    then have "py_replace (c # s) [x] new = new @ py_replace (drop (length [x]) (c # s)) [x] new"
      by (intro py_replace_hit) (simp_all add: startswith_single)
    with Cons True show ?thesis by simp
  next
    case False
    then have "py_replace (c # s) [x] new = c # py_replace s [x] new"
      by (intro py_replace_miss) (simp_all add: startswith_single)
    with Cons False show ?thesis by simp
  qed
qed

lemma startswith_append_old: "startswith (old @ rest) old"
  by (simp add: startswith_def)

lemma py_replace_leftmost:
  assumes "old \<noteq> []" and "\<not> py_in old (p @ butlast old)"
  shows "py_replace (p @ old @ rest) old new = p @ new @ py_replace rest old new"
  using assms(2)
proof (induction p)
  case Nil
  from assms(1) show ?case
    using py_replace_hit [of old "old @ rest" new] by (simp add: startswith_append_old)
next
  case (Cons c p)
  from Cons.prems have no_start: "\<not> startswith (c # p @ butlast old) old"
    and no_later: "\<not> py_in old (p @ butlast old)"
    by simp_all
  have "take (length old) (c # p @ old @ rest) = take (length old) (c # p @ butlast old)"
  proof -
    have "old = butlast old @ [last old]" using assms(1) by simp
    then have "c # p @ old @ rest = (c # p @ butlast old) @ (last old # rest)"
      by (metis append.assoc append_Cons append_Nil)
    moreover have "length old \<le> length (c # p @ butlast old)" by simp
    ultimately show ?thesis by (metis take_append diff_is_0_eq' take_0 append_Nil2)
  qed
  with no_start have "\<not> startswith (c # p @ old @ rest) old"
    by (simp add: startswith_def)
  then have "py_replace (c # p @ old @ rest) old new = c # py_replace (p @ old @ rest) old new"
    using assms(1) by (rule py_replace_miss [rotated])
  with Cons.IH [OF no_later] show ?case by simp
qed

lemma py_replace_absent:
  "old \<noteq> [] \<Longrightarrow> \<not> py_in old s \<Longrightarrow> py_replace s old new = s"
proof (induction s)
  case Nil
  then show ?case by simp
next
  case (Cons c s)
  then show ?case using py_replace_miss [of old c s new] by simp
qed

lemma py_strip_infix: "\<exists>l r. s = l @ py_strip s @ r"
proof -
  let ?d = "dropWhile is_space s"
  have "rev (takeWhile is_space (rev ?d) @ dropWhile is_space (rev ?d)) = rev (rev ?d)"
    by (simp only: takeWhile_dropWhile_id)
  then have "rev (dropWhile is_space (rev ?d)) @ rev (takeWhile is_space (rev ?d)) = ?d"
    by (simp only: rev_append rev_rev_ident)
  then have "?d = py_strip s @ rev (takeWhile is_space (rev ?d))"
    by (simp only: py_strip_def)
  moreover have "s = takeWhile is_space s @ ?d"
    by (simp only: takeWhile_dropWhile_id)
  ultimately have "s = takeWhile is_space s @ py_strip s @ rev (takeWhile is_space (rev ?d))"
    by (simp only:)
  then show ?thesis by blast
qed

lemma py_strip_set: "set (py_strip s) \<subseteq> set s"
  using py_strip_infix [of s] by (metis Un_iff set_append subsetI)

lemma py_strip_ends:
  assumes "py_strip s \<noteq> []"
  shows "\<not> is_space (hd (py_strip s)) \<and> \<not> is_space (last (py_strip s))"
proof -
  let ?d = "dropWhile is_space s"
  let ?e = "dropWhile is_space (rev ?d)"
  from assms have e: "?e \<noteq> []" by (simp add: py_strip_def)
  have "?d = [] \<Longrightarrow> ?e = []" by (simp only: rev.simps dropWhile.simps)
  with e have d: "?d \<noteq> []" by blast
  have "last (py_strip s) = hd ?e" using e by (simp add: py_strip_def last_rev)
  moreover have "\<not> is_space (hd ?e)" using e by (rule hd_dropWhile)
  moreover have "hd (py_strip s) = last ?e" using e by (simp add: py_strip_def hd_rev)
  moreover have "last ?e = last (rev ?d)"
  proof -
    have "last (takeWhile is_space (rev ?d) @ ?e) = last ?e" using e by (rule last_appendR)
    then show ?thesis by (simp only: takeWhile_dropWhile_id)
  qed
  moreover have "last (rev ?d) = hd ?d" using d by (simp add: last_rev)
  moreover have "\<not> is_space (hd ?d)" using d by (rule hd_dropWhile)
  ultimately show ?thesis by simp
qed

lemma py_strip_space_Cons: "py_strip (32 # x) = py_strip x"
  by (simp add: py_strip_def is_space_def)

lemma py_strip_idem: "py_strip (py_strip s) = py_strip s"
proof (cases "py_strip s = []")
  case True
  have "py_strip [] = []" by (simp add: py_strip_def)
  with True show ?thesis by simp
next
  case False
  let ?z = "py_strip s"
  from py_strip_ends [OF False] have h: "\<not> is_space (hd ?z)" and l: "\<not> is_space (last ?z)"
    by simp_all
  from False h have "dropWhile is_space ?z = ?z" by (cases ?z) simp_all
  moreover from False l have "dropWhile is_space (rev ?z) = rev ?z"
    by (cases "rev ?z") (simp_all add: hd_rev)
  ultimately show ?thesis by (simp add: py_strip_def [of ?z])
qed

lemma successively_infix: "successively R (l @ m @ r) \<Longrightarrow> successively R m"
  by (simp add: successively_append_iff)

lemma dropWhile_hd: "dropWhile P s = [] \<or> \<not> P (hd (dropWhile P s))"
  using hd_dropWhile [of P s] by blast

section \<open>Properties of the search loop\<close>

lemma many_head:
  "n \<le> length (takeWhile P cs) \<Longrightarrow>
     \<exists>tl. many P n b cs = (rev (takeWhile P cs) @ b, dropWhile P cs) # tl"
proof (induction cs arbitrary: n b)
  case Nil
  then show ?case by simp
next
  case (Cons c cs)
  show ?case
  proof (cases "P c")
    case True
    with Cons.prems have "n - 1 \<le> length (takeWhile P cs)" by simp
    from Cons.IH [OF this, of "c # b"] True show ?thesis by auto
  next
    case False
    with Cons.prems show ?thesis by simp
  qed
qed

lemma many_none: "\<not> P c \<Longrightarrow> many P (Suc 0) b (c # cs) = []"
  by simp

lemma scan_end: "scan (Many (Suc 0) P) False b gap [] = ([], gap)"
  by (simp add: scan.simps [of _ _ _ _ "[]"] del: scan.simps)

lemma scan_skip:
  "\<forall>c \<in> set x. \<not> P c \<Longrightarrow>
     scan (Many (Suc 0) P) False b gap (x @ rest) = scan (Many (Suc 0) P) False (rev x @ b) (gap @ x) rest"
proof (induction x arbitrary: b gap)
  case Nil
  show ?case by simp
next
  case (Cons c x)
  then have "scan (Many (Suc 0) P) False b gap ((c # x) @ rest)
      = scan (Many (Suc 0) P) False (c # b) (gap @ [c]) (x @ rest)"
    by (simp add: scan.simps [of _ _ _ _ "c # x @ rest"] del: scan.simps)
  with Cons.IH [of "c # b" "gap @ [c]"] Cons.prems show ?case by simp
qed

lemma scan_delimiter:
  assumes "P d" and "rest = [] \<or> \<not> P (hd rest)"
  shows "scan (Many (Suc 0) P) False b gap (d # rest) =
     (case scan (Many (Suc 0) P) False (d # b) [] rest of
        (ms, rest') \<Rightarrow> ((gap, \<lparr>group0 = [d], groups = []\<rparr>) # ms, rest'))"
proof -
  from assms(2) have tw: "takeWhile P rest = []" and dw: "dropWhile P rest = rest"
    by (cases rest; simp)+
  from assms(1) have "Suc 0 \<le> length (takeWhile P (d # rest))" by simp
  from many_head [OF this, of b] assms(1) tw dw obtain tl where
    hd: "many P (Suc 0) b (d # rest) = (d # b, rest) # tl"
    by auto
  show ?thesis
    by (simp add: scan.simps [of _ _ _ _ "d # rest"] hd del: scan.simps many.simps
        split: prod.splits)
qed

lemma scan_run:
  "scan (Many (Suc 0) P) False b gap cs = (ms, rest) \<Longrightarrow>
     concat (map (\<lambda>(gap, m). gap @ repl) ms) @ rest = gap @ collapse P repl cs"
proof (induction P repl cs arbitrary: b gap ms rest rule: collapse.induct)
  case (1 P repl)
  then show ?case by (simp add: scan.simps [of _ _ _ _ "[]"] del: scan.simps)
next
  case (2 P repl c cs)
  show ?case
  proof (cases "P c")
    case True
    then have "Suc 0 \<le> length (takeWhile P (c # cs))" by simp
    from many_head [OF this, of b] True obtain tl where
      hd: "many P (Suc 0) b (c # cs) = (rev (takeWhile P (c # cs)) @ b, dropWhile P cs) # tl"
      by auto
    obtain ms' rest' where
      rec: "scan (Many (Suc 0) P) False (rev (takeWhile P (c # cs)) @ b) [] (dropWhile P cs)
              = (ms', rest')"
      by (cases "scan (Many (Suc 0) P) False (rev (takeWhile P (c # cs)) @ b) [] (dropWhile P cs)")
    have lt: "length (dropWhile P cs) \<noteq> Suc (length cs)"
      using length_dropWhile_le [of P cs] by simp
    from "2.prems" hd rec lt have
      "ms = (gap, \<lparr>group0 = take (length (c # cs) - length (dropWhile P cs)) (c # cs),
                    groups = []\<rparr>) # ms'" and "rest = rest'"
      by (simp_all add: scan.simps [of _ _ _ _ "c # cs"] del: scan.simps)
    with "2.IH"(1) [OF True rec] show ?thesis using True by simp
  next
    case False
    from "2.prems" False have "scan (Many (Suc 0) P) False (c # b) (gap @ [c]) cs = (ms, rest)"
      by (simp add: scan.simps [of _ _ _ _ "c # cs"] del: scan.simps)
    from "2.IH"(2) [OF False this] False show ?thesis by simp
  qed
qed

lemma re_sub_run: "re_sub (Many (Suc 0) P) repl s = collapse P repl s"
proof -
  obtain ms rest where sc: "scan (Many (Suc 0) P) False [] [] s = (ms, rest)"
    by (cases "scan (Many (Suc 0) P) False [] [] s")
  from scan_run [OF sc, of repl] sc show ?thesis by (simp add: re_sub_def)
qed

lemma scan_gaps_free:
  "scan (Many (Suc 0) P) False b gap cs = (ms, rest) \<Longrightarrow> \<forall>c \<in> set gap. \<not> P c \<Longrightarrow>
     (\<forall>piece \<in> set (map fst ms @ [rest]). \<forall>c \<in> set piece. \<not> P c)"
proof (induction P "[]::str" cs arbitrary: b gap ms rest rule: collapse.induct)
  case (1 P)
  then show ?case by (simp add: scan_end)
next
  case (2 P c cs)
  show ?case
  proof (cases "P c")
    case True
    then have "Suc 0 \<le> length (takeWhile P (c # cs))" by simp
    from many_head [OF this, of b] True obtain tl where
      hd: "many P (Suc 0) b (c # cs) = (rev (takeWhile P (c # cs)) @ b, dropWhile P cs) # tl"
      by auto
    obtain ms' rest' where
      rec: "scan (Many (Suc 0) P) False (rev (takeWhile P (c # cs)) @ b) [] (dropWhile P cs)
              = (ms', rest')"
      by (cases "scan (Many (Suc 0) P) False (rev (takeWhile P (c # cs)) @ b) [] (dropWhile P cs)")
    have lt: "length (dropWhile P cs) \<noteq> Suc (length cs)"
      using length_dropWhile_le [of P cs] by simp
    from "2.prems"(1) hd rec lt have
      "map fst ms = gap # map fst ms'" and "rest = rest'"
      by (auto simp add: scan.simps [of _ _ _ _ "c # cs"] simp del: scan.simps)
    with "2.hyps"(1) [OF True rec] "2.prems"(2) show ?thesis by simp
  next
    case False
    from "2.prems"(1) False have "scan (Many (Suc 0) P) False (c # b) (gap @ [c]) cs = (ms, rest)"
      by (simp add: scan.simps [of _ _ _ _ "c # cs"] del: scan.simps)
    from "2.hyps"(2) [OF False this] False "2.prems"(2) show ?thesis by simp
  qed
qed

lemma collapse_set:
  "c \<in> set (collapse P [x] s) \<Longrightarrow> P c \<Longrightarrow> c = x"
  by (induction P "[x]" s rule: collapse.induct) (auto split: if_splits)

lemma collapse_hd:
  "s = [] \<or> \<not> P (hd s) \<Longrightarrow> collapse P repl s = [] \<or> \<not> P (hd (collapse P repl s))"
  by (cases s) auto

lemma collapse_successively:
  "successively (\<lambda>a b. \<not> (P a \<and> P b)) (collapse P [x] s)"
proof (induction P "[x]" s rule: collapse.induct)
  case (1 P)
  show ?case by simp
next
  case (2 P c cs)
  show ?case
  proof (cases "P c")
    case True
    have "collapse P [x] (dropWhile P cs) = [] \<or> \<not> P (hd (collapse P [x] (dropWhile P cs)))"
      by (rule collapse_hd) (rule dropWhile_hd)
    with "2.hyps"(1) [OF True] True
    show ?thesis by (cases "collapse P [x] (dropWhile P cs)") (auto simp: successively_Cons)
  next
    case False
    with "2.hyps"(2) show ?thesis by (cases "collapse P [x] cs") (auto simp: successively_Cons)
  qed
qed

section \<open>Properties of the keyword ranker\<close>

lemma dict_set_keys_old: "k \<in> fst ` set d \<Longrightarrow> map fst (dict_set d k v) = map fst d"
  by (induction d) force+

lemma dict_set_keys_new: "k \<notin> fst ` set d \<Longrightarrow> map fst (dict_set d k v) = map fst d @ [k]"
  by (induction d) auto

lemma dict_set_keys:
  "map fst (dict_set d k v) = (if k \<in> set (map fst d) then map fst d else map fst d @ [k])"
  by (simp add: dict_set_keys_old dict_set_keys_new)

lemma dict_get_set:
  "dict_get (dict_set d k v) k' dflt = (if k' = k then v else dict_get d k' dflt)"
  by (induction d) auto

lemma dict_get_member:
  "distinct (map fst d) \<Longrightarrow> (k, v) \<in> set d \<Longrightarrow> dict_get d k dflt = v"
  by (induction d) (auto simp: rev_image_eqI)

lemma count_words_snoc:
  "count_words d (ws @ [w]) =
     dict_set (count_words d ws) w (dict_get (count_words d ws) w 0 + 1)"
  by (induction ws arbitrary: d) auto

lemma first_index_snoc_old:
  "a \<in> set ws \<Longrightarrow> first_index (ws @ [w]) a = first_index ws a"
  by (simp add: first_index_def takeWhile_append1)

lemma first_index_less:
  "a \<in> set ws \<Longrightarrow> first_index ws a < length ws"
  unfolding first_index_def
  by (induction ws) auto

lemma first_index_snoc_new:
  "w \<notin> set ws \<Longrightarrow> first_index (ws @ [w]) w = length ws"
  unfolding first_index_def
  by (induction ws) auto

lemma count_words_invariant:
  "distinct (map fst (count_words [] ws)) \<and>
   set (map fst (count_words [] ws)) = set ws \<and>
   sorted_wrt (\<lambda>a b. first_index ws a < first_index ws b) (map fst (count_words [] ws)) \<and>
   (\<forall>w. dict_get (count_words [] ws) w 0 = count_list ws w)"
proof (induction ws rule: rev_induct)
  case Nil
  show ?case by simp
next
  case (snoc w ws)
  let ?d = "count_words [] ws"
  let ?d' = "count_words [] (ws @ [w])"
  from snoc have dist: "distinct (map fst ?d)" and keys: "set (map fst ?d) = set ws"
    and ord: "sorted_wrt (\<lambda>a b. first_index ws a < first_index ws b) (map fst ?d)"
    and cnt: "\<And>v. dict_get ?d v 0 = count_list ws v"
    by auto
  have k': "map fst ?d' = (if w \<in> set ws then map fst ?d else map fst ?d @ [w])"
    using keys by (simp add: count_words_snoc dict_set_keys)
  have ord_old: "sorted_wrt (\<lambda>a b. first_index (ws @ [w]) a < first_index (ws @ [w]) b) (map fst ?d)"
    using ord keys
    by (auto intro!: sorted_wrt_mono_rel [OF _ ord] simp: first_index_snoc_old simp del: set_map)
  have c1: "distinct (map fst ?d')" using dist keys k' by auto
  have c2: "set (map fst ?d') = set (ws @ [w])" using keys k' by auto
  have c3: "sorted_wrt (\<lambda>a b. first_index (ws @ [w]) a < first_index (ws @ [w]) b) (map fst ?d')"
  proof (cases "w \<in> set ws")
    case True
    then show ?thesis using ord_old k' by simp
  next
    case False
    have "\<forall>a \<in> set (map fst ?d). first_index (ws @ [w]) a < first_index (ws @ [w]) w"
      using keys False by (simp add: first_index_snoc_old first_index_snoc_new first_index_less)
    then show ?thesis using ord_old k' False by (simp add: sorted_wrt_append)
  qed
  have c4: "\<forall>v. dict_get ?d' v 0 = count_list (ws @ [w]) v"
    by (simp add: count_words_snoc dict_get_set cnt)
  from c1 c2 c3 c4 show ?case by blast
qed

lemma insort_key_tiebreak:
  assumes "sorted_wrt (\<lambda>a b. f a < f b \<or> (f a = f b \<and> R a b)) ys"
    and "\<forall>y \<in> set ys. R x y"
  shows "sorted_wrt (\<lambda>a b. f a < f b \<or> (f a = f b \<and> R a b)) (insort_key f x ys)"
  using assms
proof (induction ys)
  case Nil
  then show ?case by simp
next
  case (Cons y ys)
  show ?case
  proof (cases "f x \<le> f y")
    case True
    with Cons.prems show ?thesis by (auto simp: order.strict_iff_order) 
  next
    case False
    with Cons show ?thesis by (auto simp: set_insort_key)
  qed
qed

lemma sort_key_tiebreak:
  "sorted_wrt R xs \<Longrightarrow>
     sorted_wrt (\<lambda>a b. f a < f b \<or> (f a = f b \<and> R a b)) (sort_key f xs)"
proof (induction xs)
  case Nil
  show ?case by simp
next
  case (Cons x xs)
  then show ?case by (auto intro!: insort_key_tiebreak)
qed

lemma py_slice_to_map: "map f (py_slice_to xs k) = py_slice_to (map f xs) k"
  by (simp add: py_slice_to_def take_map)

lemma extract_keywords_slice:
  "extract_keywords U t k = py_slice_to (ranking (surviving_words U t)) k"
  by (simp add: extract_keywords_def Let_def ranking_def sorted_reverse_def
      py_slice_to_def take_map)

lemma ranking_distinct: "distinct (ranking ws)"
proof -
  have "mset (map fst (sorted_reverse snd (count_words [] ws))) = mset (map fst (count_words [] ws))"
    by (simp add: sorted_reverse_def)
  then have "distinct (map fst (sorted_reverse snd (count_words [] ws))) =
             distinct (map fst (count_words [] ws))"
    by (rule mset_eq_imp_distinct_iff)
  then show ?thesis using count_words_invariant [of ws] by (simp add: ranking_def)
qed

lemma ranking_set: "set (ranking ws) = set ws"
  using count_words_invariant [of ws] by (simp add: ranking_def sorted_reverse_def)

lemma ranking_sorted: "sorted_wrt (ranks_before ws) (ranking ws)"
proof -
  let ?d = "count_words [] ws"
  let ?R = "\<lambda>a b. first_index ws (fst a) < first_index ws (fst b)"
  let ?f = "\<lambda>x::str \<times> nat. - int (snd x)"
  from count_words_invariant [of ws] have dist: "distinct (map fst ?d)"
    and ord: "sorted_wrt (\<lambda>a b. first_index ws a < first_index ws b) (map fst ?d)"
    and cnt: "\<And>w. dict_get ?d w 0 = count_list ws w"
    by auto
  from ord have "sorted_wrt ?R ?d" by (simp add: sorted_wrt_map)
  then have s: "sorted_wrt (\<lambda>a b. ?f a < ?f b \<or> (?f a = ?f b \<and> ?R a b)) (sort_key ?f ?d)"
    by (rule sort_key_tiebreak)
  have snd_count: "snd x = count_list ws (fst x)" if "x \<in> set ?d" for x
    using dict_get_member [OF dist, of "fst x" "snd x" 0] that cnt by simp
  have "sorted_wrt (\<lambda>a b. ranks_before ws (fst a) (fst b)) (sort_key ?f ?d)"
    by (rule sorted_wrt_mono_rel [OF _ s]) (auto simp: ranks_before_def snd_count)
  then show ?thesis by (simp add: ranking_def sorted_reverse_def sorted_wrt_map)
qed

text \<open>
  C1, as the code has it. For every text and every \<open>top_k\<close>, the result is cut from one
  ranking of the words that survive the tokenization and the stop words: the ranking holds
  each surviving word once, in falling order of frequency, words of one frequency in the
  order of their first occurrence. For \<open>top_k \<ge> 0\<close> the result is the first \<open>top_k\<close>
  entries of the ranking, and the first ten by default; for a negative \<open>top_k\<close> the slice
  \<open>[:top_k]\<close> drops the last \<open>-top_k\<close> entries instead. When no word survives, the
  result is the empty list.
\<close>

theorem extract_keywords_ranked:
  "\<exists>rk. distinct rk \<and> set rk = set (surviving_words U t) \<and>
      sorted_wrt (ranks_before (surviving_words U t)) rk \<and>
      extract_keywords U t top_k =
        (if 0 \<le> top_k then take (nat top_k) rk else take (length rk - nat (- top_k)) rk) \<and>
      extract_keywords_default U t = take 10 rk \<and>
      (surviving_words U t = [] \<longrightarrow> extract_keywords U t top_k = [])"
proof -
  let ?rk = "ranking (surviving_words U t)"
  have a: "extract_keywords U t top_k =
        (if 0 \<le> top_k then take (nat top_k) ?rk else take (length ?rk - nat (- top_k)) ?rk)"
    by (auto simp: extract_keywords_slice py_slice_to_def intro!: arg_cong2 [where f = take])
  have b: "extract_keywords_default U t = take 10 ?rk"
    by (simp add: extract_keywords_default_def extract_keywords_slice py_slice_to_def)
  have c: "surviving_words U t = [] \<longrightarrow> extract_keywords U t top_k = []"
    by (simp add: extract_keywords_def)
  from a b c ranking_distinct [of "surviving_words U t"] ranking_set [of "surviving_words U t"]
    ranking_sorted [of "surviving_words U t"]
  show ?thesis by blast
qed

text \<open>
  C1, witness: a text of stop words only. No word survives and the result is empty.
\<close>

theorem extract_keywords_ranked_witness:
  "surviving_words ascii_db (utext ''the and of these'') = [] \<and>
   extract_keywords ascii_db (utext ''the and of these'') 5 = []"
proof -
  have h: "surviving_words ascii_db (utext ''the and of these'') = []"
    by code_simp
  from extract_keywords_ranked [of ascii_db "utext ''the and of these''" 5] h
  show ?thesis by blast
qed

text \<open>
  C1, as stated, fails for a negative \<open>top_k\<close>: the text \<open>aaa bbb\<close> has the ranking
  \<open>[aaa, bbb]\<close>; with \<open>top_k = -1\<close> the function returns \<open>[aaa]\<close>, one entry, which is
  not the first \<open>-1\<close> entries of the ranking.
\<close>

theorem extract_keywords_negative_top_k:
  "extract_keywords ascii_db (utext ''aaa bbb'') 2 = [utext ''aaa'', utext ''bbb''] \<and>
   extract_keywords ascii_db (utext ''aaa bbb'') (- 1) = [utext ''aaa''] \<and>
   extract_keywords ascii_db (utext ''aaa bbb'') (- 1)
     \<noteq> take (nat (- 1)) [utext ''aaa'', utext ''bbb'']"
  by code_simp

text \<open>
  C2, as stated, fails: for the job description of the example and \<open>top_k = 5\<close> the result
  is not \<open>[python, developer, flask, docker, experience]\<close>.
\<close>

theorem extract_keywords_example_refuted:
  "extract_keywords ascii_db
     (utext ''Looking for a Python developer with Flask and Docker experience'') 5
   \<noteq> map utext [''python'', ''developer'', ''flask'', ''docker'', ''experience'']"
  by code_simp

text \<open>
  C2, as the code has it: \<open>looking\<close> is no stop word, so it is the first of the six words
  that survive, each of frequency one, and the first five are
  \<open>[looking, python, developer, flask, docker]\<close>.
\<close>

theorem extract_keywords_example:
  "extract_keywords U
     (utext ''Looking for a Python developer with Flask and Docker experience'') 5
   = map utext [''looking'', ''python'', ''developer'', ''flask'', ''docker'']"
  by code_simp

text \<open>
  C10: for every text and every \<open>top_k\<close>, no word occurs twice in the result.
\<close>

theorem extract_keywords_distinct: "distinct (extract_keywords U t top_k)"
  by (simp add: extract_keywords_slice py_slice_to_def ranking_distinct)

section \<open>Properties of the section rewriter\<close>

lemma mset_reorder_items: "mset (reorder_items U keywords items) = mset items"
  by (simp add: reorder_items_def sorted_reverse_def Let_def image_mset.compositionality comp_def)

lemma set_reorder_items: "set (reorder_items U keywords items) = set items"
  by (metis mset_reorder_items set_mset_mset)

lemma rewrite_patterns_no_match:
  "\<forall>pattern \<in> set patterns. finditer pattern resume_text = [] \<Longrightarrow>
     foldl (rewrite_pattern U keywords) resume_text patterns = resume_text"
  by (induction patterns) (simp_all add: rewrite_pattern_def)

lemma item_delimiters_eq: "item_delimiters = Many (Suc 0) delimiter"
  by (simp add: item_delimiters_def)

lemma re_split_join:
  assumes "xs \<noteq> []" and "\<forall>x \<in> set xs. \<forall>c \<in> set x. \<not> delimiter c"
    and "scan (Many (Suc 0) delimiter) False b gap (py_join [44, 32] xs) = (ms, rest)"
  shows "map fst ms @ [rest] = (gap @ hd xs) # map ((#) 32) (tl xs)"
  using assms
proof (induction xs arbitrary: b gap ms rest)
  case Nil
  then show ?case by simp
next
  case (Cons x xs)
  from Cons.prems(2) have xfree: "\<forall>c \<in> set x. \<not> delimiter c" by simp
  show ?case
  proof (cases xs)
    case Nil
    with Cons.prems(3) scan_skip [OF xfree, of b gap "[]"] show ?thesis
      by (simp add: scan_end)
  next
    case (Cons y ys)
    have d: "delimiter 44" by (simp add: delimiter_def)
    have nd: "\<forall>c \<in> set [32]. \<not> delimiter c" by (simp add: delimiter_def BULLET_def NEWLINE_def)
    have j: "py_join [44, 32] (x # xs) = x @ (44 # ([32] @ py_join [44, 32] xs))"
      using Cons by simp
    obtain ms' rest' where rec:
      "scan (Many (Suc 0) delimiter) False (rev [32] @ 44 # rev x @ b) ([] @ [32]) (py_join [44, 32] xs)
         = (ms', rest')"
      by (cases "scan (Many (Suc 0) delimiter) False (rev [32] @ 44 # rev x @ b) ([] @ [32]) (py_join [44, 32] xs)")
    have "scan (Many (Suc 0) delimiter) False b gap (py_join [44, 32] (x # xs))
        = scan (Many (Suc 0) delimiter) False (rev x @ b) (gap @ x) (44 # ([32] @ py_join [44, 32] xs))"
      unfolding j by (rule scan_skip [OF xfree])
    also have "\<dots> = (case scan (Many (Suc 0) delimiter) False (44 # rev x @ b) [] ([32] @ py_join [44, 32] xs) of
        (ms, rest') \<Rightarrow> ((gap @ x, \<lparr>group0 = [44], groups = []\<rparr>) # ms, rest'))"
      by (rule scan_delimiter [where P = delimiter and d = 44, OF d])
         (simp add: delimiter_def BULLET_def NEWLINE_def)
    also have "scan (Many (Suc 0) delimiter) False (44 # rev x @ b) [] ([32] @ py_join [44, 32] xs)
        = scan (Many (Suc 0) delimiter) False (rev [32] @ 44 # rev x @ b) ([] @ [32]) (py_join [44, 32] xs)"
      by (rule scan_skip [OF nd])
    finally have "(ms, rest) = ((gap @ x, \<lparr>group0 = [44], groups = []\<rparr>) # ms', rest')"
      using Cons.prems(3) rec by simp
    moreover have "map fst ms' @ [rest'] = ([] @ [32] @ hd xs) # map ((#) 32) (tl xs)"
      using Cons.IH [OF _ _ rec] Cons.prems(2) Cons by simp
    ultimately show ?thesis using Cons by simp
  qed
qed

lemma split_items_props:
  "x \<in> set (split_items content) \<Longrightarrow> x \<noteq> [] \<and> py_strip x = x \<and> (\<forall>c \<in> set x. \<not> delimiter c)"
proof -
  assume x: "x \<in> set (split_items content)"
  obtain ms rest where sc: "scan (Many (Suc 0) delimiter) False [] [] content = (ms, rest)"
    by (cases "scan (Many (Suc 0) delimiter) False [] [] content")
  from x sc obtain piece where p: "piece \<in> set (map fst ms @ [rest])" and
    xp: "x = py_strip piece" and ne: "py_strip piece \<noteq> []"
    by (auto simp: split_items_def re_split_def item_delimiters_eq Let_def)
  from scan_gaps_free [OF sc] p have "\<forall>c \<in> set piece. \<not> delimiter c" by fastforce
  with py_strip_set [of piece] xp have "\<forall>c \<in> set x. \<not> delimiter c" by auto
  with xp ne py_strip_idem [of piece] show ?thesis by simp
qed

lemma split_items_join:
  assumes "\<forall>x \<in> set xs. x \<noteq> [] \<and> py_strip x = x \<and> (\<forall>c \<in> set x. \<not> delimiter c)"
  shows "split_items (py_join (utext '', '') xs) = xs"
proof (cases xs)
  case Nil
  then show ?thesis
    by (simp add: split_items_def re_split_def item_delimiters_eq scan_end py_strip_def)
next
  case (Cons y ys)
  have u: "utext '', '' = [44, 32]" by (simp add: utext_def)
  obtain ms rest where sc:
    "scan (Many (Suc 0) delimiter) False [] [] (py_join [44, 32] xs) = (ms, rest)"
    by (cases "scan (Many (Suc 0) delimiter) False [] [] (py_join [44, 32] xs)")
  from re_split_join [OF _ _ sc] assms Cons
  have pieces: "map fst ms @ [rest] = ([] @ hd xs) # map ((#) 32) (tl xs)" by simp
  have "map py_strip (filter (\<lambda>item. py_strip item \<noteq> []) (y # map ((#) 32) ys)) = y # ys"
  proof -
    have "map py_strip (filter (\<lambda>item. py_strip item \<noteq> []) (map ((#) 32) zs)) = zs"
      if "\<forall>x \<in> set zs. x \<noteq> [] \<and> py_strip x = x" for zs
      using that by (induction zs) (simp_all add: py_strip_space_Cons)
    with assms Cons show ?thesis by simp
  qed
  with pieces sc Cons show ?thesis
    by (simp add: split_items_def re_split_def item_delimiters_eq u Let_def)
qed

text \<open>
  C3: for the text \<open>SKILLS: Java, Python, SQL\<close> and the keyword \<open>python\<close>, whatever the
  job title and the company, the result is the banner followed by the section
  \<open>SKILLS: Python, Java, SQL\<close>: the item with the keyword is first, the others keep their
  order.
\<close>

theorem polish_resume_example:
  "polish_resume U (utext ''SKILLS: Java, Python, SQL'') [utext ''python''] job_title
     company_name =
   tailored_header U [utext ''python''] job_title company_name
     @ utext ''SKILLS: Python, Java, SQL''"
  by code_simp

text \<open>
  C4, as stated, fails. In the text of the two lines \<open>SKILLS a\<close> and \<open>TOOLS SKILLS a\<close> the
  first pattern matches the spans \<open>SKILLS a\<close> and \<open>TOOLS SKILLS a\<close>. Rewriting the first
  match to \<open>SKILLS: a\<close> also changes the occurrence of \<open>SKILLS a\<close> inside the second
  line, which a replacement of the first occurrence alone leaves as it is; the difference
  stays in the result of \<open>polish_resume\<close>, whose second line is \<open>TOOLS: SKILLS: a\<close>.
\<close>

theorem rewrite_section_first_only_refuted:
  "map group0 (finditer (skill_patterns ! 0)
     (utext ''SKILLS a'' @ [NEWLINE] @ utext ''TOOLS SKILLS a''))
     = [utext ''SKILLS a'', utext ''TOOLS SKILLS a''] \<and>
   rewrite_section ascii_db [] (utext ''SKILLS a'' @ [NEWLINE] @ utext ''TOOLS SKILLS a'')
       (hd (finditer (skill_patterns ! 0)
          (utext ''SKILLS a'' @ [NEWLINE] @ utext ''TOOLS SKILLS a'')))
     = utext ''SKILLS: a'' @ [NEWLINE] @ utext ''TOOLS SKILLS: a'' \<and>
   replace_first_occurrence (utext ''SKILLS a'' @ [NEWLINE] @ utext ''TOOLS SKILLS a'')
       (utext ''SKILLS a'') (utext ''SKILLS: a'')
     = utext ''SKILLS: a'' @ [NEWLINE] @ utext ''TOOLS SKILLS a'' \<and>
   polish_resume ascii_db (utext ''SKILLS a'' @ [NEWLINE] @ utext ''TOOLS SKILLS a'') [] [] []
     = tailored_header ascii_db [] [] []
         @ utext ''SKILLS: a'' @ [NEWLINE] @ utext ''TOOLS: SKILLS: a''"
  by code_simp

text \<open>
  C4, as the code has it. For every text and every match with items, the section is built
  as the header of the match, a colon and a space, and the reordered items joined by a
  comma and a space, and it is put in place of the matched span by \<open>str.replace\<close>, which
  replaces every occurrence of the span in the text, from left to right: the text up to the
  leftmost occurrence is kept, the occurrence is replaced, and the replacement goes on in
  the text after it. A text without the span is unchanged, and so is the text when the
  section has no items.
\<close>

theorem rewrite_section_replaces_every_occurrence:
  "rewrite_section U keywords polished_text m =
     (if split_items (group m 2) = [] then polished_text
      else py_replace polished_text (group0 m)
             (group m 1 @ utext '': ''
                @ py_join (utext '', '') (reorder_items U keywords (split_items (group m 2)))))
   \<and> (old \<noteq> [] \<longrightarrow> \<not> py_in old (p @ butlast old) \<longrightarrow>
        py_replace (p @ old @ rest) old new = p @ new @ py_replace rest old new)
   \<and> (old \<noteq> [] \<longrightarrow> \<not> py_in old s \<longrightarrow> py_replace s old new = s)"
  using py_replace_leftmost [of old p rest new] py_replace_absent [of old s new]
  by (simp add: rewrite_section_def new_section_def Let_def del: py_replace.simps)

text \<open>
  C4, witness: the span \<open>SKILLS a\<close> at the start of the text and once more in its second
  line; and a text without the span.
\<close>

theorem rewrite_section_replaces_every_occurrence_witness:
  "utext ''SKILLS a'' \<noteq> [] \<and>
   \<not> py_in (utext ''SKILLS a'') ([] @ butlast (utext ''SKILLS a'')) \<and>
   py_replace ([] @ utext ''SKILLS a'' @ (NEWLINE # utext ''TOOLS SKILLS a''))
       (utext ''SKILLS a'') (utext ''SKILLS: a'')
     = [] @ utext ''SKILLS: a''
         @ py_replace (NEWLINE # utext ''TOOLS SKILLS a'') (utext ''SKILLS a'')
             (utext ''SKILLS: a'') \<and>
   \<not> py_in (utext ''SKILLS a'') (utext ''TOOLS b'') \<and>
   py_replace (utext ''TOOLS b'') (utext ''SKILLS a'') (utext ''SKILLS: a'') = utext ''TOOLS b''"
proof -
  have h1: "utext ''SKILLS a'' \<noteq> []"
    by code_simp
  have h2: "\<not> py_in (utext ''SKILLS a'') ([] @ butlast (utext ''SKILLS a''))"
    by code_simp
  have h3: "\<not> py_in (utext ''SKILLS a'') (utext ''TOOLS b'')"
    by code_simp
  from rewrite_section_replaces_every_occurrence
         [of ascii_db "[]" "[]" "\<lparr>group0 = [], groups = []\<rparr>" "utext ''SKILLS a''" "[]"
             "NEWLINE # utext ''TOOLS SKILLS a''" "utext ''SKILLS: a''" "utext ''TOOLS b''"]
       h1 h2 h3
  show ?thesis by blast
qed

text \<open>
  C5: \<open>polish_resume\<close> never raises. On every text, list of keywords, job title and company
  name the body of the \<open>try\<close> ends without an exception and the function returns its
  result; the handler turns an exception into the text that the function received; and
  when none of the three patterns matches in the text, the result is the banner followed
  by the text, unchanged.
\<close>

theorem polish_resume_never_raises:
  "(\<exists>polished. polish_resume_body U resume_text keywords job_title company_name = Inr polished \<and>
       polish_resume U resume_text keywords job_title company_name = polished) \<and>
   polish_resume_handler resume_text (Inl e) = resume_text \<and>
   ((\<forall>pattern \<in> set skill_patterns. finditer pattern resume_text = []) \<longrightarrow>
      polish_resume U resume_text keywords job_title company_name =
        tailored_header U keywords job_title company_name @ resume_text)"
  by (simp add: polish_resume_def polish_resume_body_def polish_resume_handler_def Let_def
      rewrite_patterns_no_match)

text \<open>
  C5, witness: a line of a resume without any of the headers.
\<close>

theorem polish_resume_never_raises_witness:
  "list_all (\<lambda>pattern. finditer pattern (utext ''Worked at Acme, 2019-2024'') = [])
     skill_patterns \<and>
   polish_resume ascii_db (utext ''Worked at Acme, 2019-2024'') [utext ''python'']
       (utext ''dev'') (utext ''acme'') =
     tailored_header ascii_db [utext ''python''] (utext ''dev'') (utext ''acme'')
       @ utext ''Worked at Acme, 2019-2024''"
proof -
  have h: "list_all (\<lambda>pattern. finditer pattern (utext ''Worked at Acme, 2019-2024'') = [])
             skill_patterns"
    by code_simp
  then have "\<forall>pattern \<in> set skill_patterns.
               finditer pattern (utext ''Worked at Acme, 2019-2024'') = []"
    by (simp only: list_all_iff)
  with polish_resume_never_raises
         [of ascii_db "utext ''Worked at Acme, 2019-2024''" "[utext ''python'']"
             "utext ''dev''" "utext ''acme''"] h
  show ?thesis by blast
qed

text \<open>
  C6: for every section, the reordering neither drops nor adds an item: the items written
  back are, as a multiset, the items parsed from the content of the section. And the items
  are written back so that they can be read again: splitting the joined items gives the
  reordered items.
\<close>

theorem reorder_items_mset:
  "mset (reorder_items U keywords (split_items section_content))
     = mset (split_items section_content) \<and>
   split_items (py_join (utext '', '') (reorder_items U keywords (split_items section_content)))
     = reorder_items U keywords (split_items section_content)"
proof -
  have "\<forall>x \<in> set (reorder_items U keywords (split_items section_content)).
          x \<noteq> [] \<and> py_strip x = x \<and> (\<forall>c \<in> set x. \<not> delimiter c)"
    using split_items_props [of _ section_content] by (simp add: set_reorder_items)
  then show ?thesis by (simp add: split_items_join mset_reorder_items)
qed

section \<open>Properties of the text normalizer\<close>

lemma SPACE_not_BULLET: "SPACE \<noteq> BULLET"
  by (simp add: SPACE_def BULLET_def)

lemma pad_hd: "xs \<noteq> [] \<Longrightarrow> concat (map pad xs) \<noteq> [] \<and> hd (concat (map pad xs)) \<noteq> BULLET"
  by (cases xs) (auto simp: pad_def SPACE_not_BULLET)

lemma pad_last: "pad c \<noteq> [] \<and> last (pad c) \<noteq> BULLET"
  by (simp add: pad_def SPACE_not_BULLET)

lemma pad_self: "bullets_spaced (pad c)"
  by (simp add: bullets_spaced_def pad_def SPACE_not_BULLET)

lemma pad_bullets_spaced: "bullets_spaced (concat (map pad xs))"
proof (induction xs)
  case Nil
  show ?case by (simp add: bullets_spaced_def)
next
  case (Cons c xs)
  show ?case
  proof (cases "xs = []")
    case True
    then show ?thesis using pad_self [of c] by simp
  next
    case False
    from pad_hd [OF False] pad_last [of c] pad_self [of c] Cons show ?thesis
      by (simp add: bullets_spaced_def successively_append_iff)
  qed
qed

lemma pad_space:
  "c \<in> set (concat (map pad xs)) \<Longrightarrow> is_space c \<Longrightarrow> c = SPACE \<or> c \<in> set xs"
  by (auto simp: pad_def is_space_def BULLET_def split: if_splits)

lemma whitespace_run_sub: "re_sub whitespace_run [SPACE] s = collapse is_space [SPACE] s"
  by (simp add: whitespace_run_def re_sub_run)

lemma clean_text_eq:
  "clean_text t =
     py_strip (concat (map pad (collapse is_space [SPACE]
        (py_replace (py_replace t [REPLACEMENT_CHAR] [BULLET]) [0] []))))"
proof -
  have "(\<lambda>c. if c = BULLET then [SPACE, BULLET, SPACE] else [c]) = pad"
    by (auto simp: pad_def)
  then show ?thesis
    by (simp add: clean_text_def Let_def whitespace_run_sub py_replace_single [of _ BULLET]
        del: py_replace.simps)
qed

lemma is_space_SPACE: "is_space SPACE"
  by (simp add: is_space_def SPACE_def)

lemma not_space_BULLET: "\<not> is_space BULLET"
  by (simp add: is_space_def BULLET_def)

lemma pad_padding_only:
  "successively (\<lambda>a b. \<not> (is_space a \<and> is_space b)) xs \<Longrightarrow>
     padding_only p (concat (map pad xs))"
proof (induction xs arbitrary: p)
  case Nil
  show ?case by simp
next
  case (Cons c cs)
  from Cons.prems have tail: "successively (\<lambda>a b. \<not> (is_space a \<and> is_space b)) cs"
    by (cases cs) simp_all
  note ih = Cons.IH [OF tail]
  show ?case
  proof (cases cs)
    case Nil
    then show ?thesis by (simp add: pad_def not_space_BULLET)
  next
    case (Cons d ds)
    from Cons.prems Cons have cd: "\<not> (is_space c \<and> is_space d)" by simp
    obtain y where y: "concat (map pad ds) = y" by simp
    from ih [of "Some c"] ih [of "Some SPACE"] Cons y cd show ?thesis
      by (cases y) (auto simp: pad_def not_space_BULLET is_space_SPACE)
  qed
qed

lemma padding_only_tail: "padding_only p (x # ys) \<Longrightarrow> padding_only (Some x) ys"
  by (cases ys) simp_all

lemma padding_only_prev:
  "padding_only p m \<Longrightarrow> m = [] \<or> \<not> is_space (hd m) \<Longrightarrow> padding_only q m"
  by (cases "(p, m)" rule: padding_only.cases) simp_all

lemma padding_only_drop_prefix:
  "padding_only p (l @ m) \<Longrightarrow> m = [] \<or> \<not> is_space (hd m) \<Longrightarrow> padding_only q m"
proof (induction l arbitrary: p)
  case Nil
  then show ?case by (simp add: padding_only_prev)
next
  case (Cons x l)
  from Cons.prems(1) have "padding_only (Some x) (l @ m)"
    using padding_only_tail [of p x "l @ m"] by simp
  from Cons.IH [OF this Cons.prems(2)] show ?case .
qed

lemma padding_only_drop_suffix:
  "padding_only p (m @ r) \<Longrightarrow> m = [] \<or> \<not> is_space (last m) \<Longrightarrow> padding_only p m"
proof (induction p m rule: padding_only.induct)
  case (1 p a b cs)
  from "1.prems"(2) have last: "b # cs = [] \<or> \<not> is_space (last (b # cs))" by simp
  from "1.prems"(1) have rest: "padding_only (Some a) ((b # cs) @ r)" by simp
  from "1.IH" [OF rest last] have ih: "padding_only (Some a) (b # cs)" .
  show ?case
  proof (cases cs)
    case Nil
    with "1.prems"(2) ih show ?thesis by simp
  next
    case (Cons c cs')
    with "1.prems"(1) ih show ?thesis by simp
  qed
qed simp_all

lemma concat_map_single: "concat (map (\<lambda>c. if c = x then [y] else [c]) s) = map (\<lambda>c. if c = x then y else c) s"
  by (induction s) simp_all

lemma concat_map_drop: "concat (map (\<lambda>c. if c = x then [] else [c]) s) = filter (\<lambda>c. c \<noteq> x) s"
  by (induction s) simp_all

lemma clean_text_steps:
  "clean_text t =
     py_strip (concat (map pad (collapse is_space [SPACE]
        (filter (\<lambda>c. c \<noteq> 0)
           (map (\<lambda>c. if c = REPLACEMENT_CHAR then BULLET else c) t)))))"
  unfolding clean_text_eq
  by (simp only: py_replace_single concat_map_single concat_map_drop)

lemma collapse_subset: "set (collapse P [x] s) \<subseteq> insert x (set s)"
proof (induction P "[x]" s rule: collapse.induct)
  case (1 P)
  show ?case by simp
next
  case (2 P c cs)
  show ?case
  proof (cases "P c")
    case True
    with "2.hyps"(1) set_dropWhileD [of _ P cs] show ?thesis by auto
  next
    case False
    with "2.hyps"(2) show ?thesis by auto
  qed
qed

lemma pad_no_bullet: "BULLET \<notin> set xs \<Longrightarrow> concat (map pad xs) = xs"
  by (induction xs) (auto simp: pad_def)

lemma py_strip_parts:
  obtains l r where "s = l @ py_strip s @ r"
    and "py_strip s \<noteq> [] \<Longrightarrow> \<not> is_space (hd (py_strip s)) \<and> \<not> is_space (last (py_strip s))"
  using py_strip_infix [of s] py_strip_ends [of s] by blast

lemma py_strip_padding_only: "padding_only p s \<Longrightarrow> padding_only None (py_strip s)"
proof (cases "py_strip s = []")
  case True
  then show ?thesis by simp
next
  case False
  assume p: "padding_only p s"
  define m where "m = py_strip s"
  obtain l r where s: "s = l @ m @ r" and e: "\<not> is_space (hd m) \<and> \<not> is_space (last m)"
    using py_strip_parts [of s] False unfolding m_def by metis
  from False have ne: "m \<noteq> []" by (simp add: m_def)
  from p have "padding_only p (l @ (m @ r))" unfolding s .
  moreover from ne e have "m @ r = [] \<or> \<not> is_space (hd (m @ r))" by simp
  ultimately have "padding_only None (m @ r)" by (rule padding_only_drop_prefix)
  moreover from e have "m = [] \<or> \<not> is_space (last m)" by simp
  ultimately have "padding_only None m" by (rule padding_only_drop_suffix)
  then show ?thesis by (simp only: m_def)
qed

lemma py_strip_successively: "successively R s \<Longrightarrow> successively R (py_strip s)"
proof -
  assume a: "successively R s"
  define m where "m = py_strip s"
  obtain l r where s: "s = l @ m @ r"
    using py_strip_infix [of s] unfolding m_def by blast
  from a have "successively R (l @ m @ r)" unfolding s .
  then have "successively R m" by (rule successively_infix)
  then show ?thesis by (simp only: m_def)
qed

text \<open>
  C7, as stated, fails. A bullet with a space on either side, \<open>a \<bullet> b\<close>, comes out with two
  spaces on either side, since the bullets are padded after the whitespace is collapsed;
  and a bullet at the start or at the end of the text has no space before it or after it,
  since the text is stripped last.
\<close>

theorem clean_text_refuted:
  "clean_text (utext ''a '' @ [BULLET] @ utext '' b'') = utext ''a  '' @ [BULLET] @ utext ''  b'' \<and>
   \<not> single_spaced (clean_text (utext ''a '' @ [BULLET] @ utext '' b'')) \<and>
   clean_text (BULLET # utext ''a'') = BULLET # utext '' a'' \<and>
   clean_text (utext ''a'' @ [BULLET]) = utext ''a '' @ [BULLET]"
  by code_simp

text \<open>
  C7, as the code has it. For every text, the result of the normalizer is the text with
  each replacement character turned into a bullet, the null characters taken out, each
  whitespace run collapsed to one space, each bullet padded with a space on either side,
  and the ends stripped. In the result the only whitespace is the space; two whitespace
  code points stand side by side only where a bullet is padded, directly after a bullet or
  directly before one, so that a text without bullets and replacement characters comes out
  with single spaces throughout; every bullet has a space before it unless it is the first
  code point and a space after it unless it is the last; and the result neither starts nor
  ends with whitespace.
\<close>

theorem clean_text_normal_form:
  "clean_text t =
     py_strip (concat (map pad (collapse is_space [SPACE]
        (filter (\<lambda>c. c \<noteq> 0)
           (map (\<lambda>c. if c = REPLACEMENT_CHAR then BULLET else c) t))))) \<and>
   (\<forall>c \<in> set (clean_text t). is_space c \<longrightarrow> c = SPACE) \<and>
   padding_only None (clean_text t) \<and>
   (BULLET \<notin> set t \<and> REPLACEMENT_CHAR \<notin> set t \<longrightarrow> single_spaced (clean_text t)) \<and>
   bullets_spaced (clean_text t) \<and>
   (clean_text t \<noteq> [] \<longrightarrow> \<not> is_space (hd (clean_text t)) \<and> \<not> is_space (last (clean_text t)))"
proof -
  define t2 where "t2 = filter (\<lambda>c. c \<noteq> 0) (map (\<lambda>c. if c = REPLACEMENT_CHAR then BULLET else c) t)"
  define t3 where "t3 = collapse is_space [SPACE] t2"
  define t4 where "t4 = concat (map pad t3)"
  have eq: "clean_text t = py_strip t4"
    unfolding t4_def t3_def t2_def by (rule clean_text_steps)
  have t3: "successively (\<lambda>a b. \<not> (is_space a \<and> is_space b)) t3"
    unfolding t3_def by (rule collapse_successively)
  have b: "\<forall>c \<in> set (py_strip t4). is_space c \<longrightarrow> c = SPACE"
  proof (intro ballI impI)
    fix c assume "c \<in> set (py_strip t4)" and sp: "is_space c"
    then have "c \<in> set (concat (map pad t3))" using py_strip_set [of t4] unfolding t4_def by blast
    from pad_space [OF this sp] have "c = SPACE \<or> c \<in> set (collapse is_space [SPACE] t2)"
      unfolding t3_def .
    with sp collapse_set [of c is_space SPACE t2] show "c = SPACE" by blast
  qed
  have c: "padding_only None (py_strip t4)"
    unfolding t4_def by (rule py_strip_padding_only [OF pad_padding_only [OF t3]])
  have d: "BULLET \<notin> set t \<and> REPLACEMENT_CHAR \<notin> set t \<longrightarrow> single_spaced (py_strip t4)"
  proof
    assume free: "BULLET \<notin> set t \<and> REPLACEMENT_CHAR \<notin> set t"
    then have "BULLET \<notin> set t2" unfolding t2_def by auto
    with collapse_subset [of is_space SPACE t2] SPACE_not_BULLET have "BULLET \<notin> set t3"
      unfolding t3_def by auto
    then have "t4 = t3" unfolding t4_def by (rule pad_no_bullet)
    with t3 have "successively (\<lambda>a b. \<not> (is_space a \<and> is_space b)) t4" by (simp only:)
    then show "single_spaced (py_strip t4)"
      unfolding single_spaced_def by (rule py_strip_successively)
  qed
  have e: "bullets_spaced (py_strip t4)"
    using pad_bullets_spaced [of t3]
    unfolding bullets_spaced_def t4_def by (rule py_strip_successively)
  have f: "py_strip t4 \<noteq> [] \<longrightarrow>
      \<not> is_space (hd (py_strip t4)) \<and> \<not> is_space (last (py_strip t4))"
    using py_strip_ends [of t4] by blast
  have "clean_text t = py_strip t4 \<and>
        (\<forall>c \<in> set (py_strip t4). is_space c \<longrightarrow> c = SPACE) \<and>
        padding_only None (py_strip t4) \<and>
        (BULLET \<notin> set t \<and> REPLACEMENT_CHAR \<notin> set t \<longrightarrow> single_spaced (py_strip t4)) \<and>
        bullets_spaced (py_strip t4) \<and>
        (py_strip t4 \<noteq> [] \<longrightarrow>
           \<not> is_space (hd (py_strip t4)) \<and> \<not> is_space (last (py_strip t4)))"
    using eq b c d e f by (intro conjI)
  then show ?thesis
    unfolding eq [symmetric] unfolding eq unfolding t4_def t3_def t2_def .
qed

text \<open>
  C7, witness: a text with a bullet, a newline, a replacement character and a null
  character, and a text without bullets whose whitespace runs hold spaces, a newline and a
  tabulator and which comes out as \<open>a b c\<close>.
\<close>

theorem clean_text_normal_form_witness:
  "SPACE \<in> set (clean_text (utext ''a '' @ [BULLET, NEWLINE, REPLACEMENT_CHAR, 0] @ utext ''c'')) \<and>
   is_space SPACE \<and>
   clean_text (utext ''a '' @ [BULLET, NEWLINE, REPLACEMENT_CHAR, 0] @ utext ''c'') \<noteq> [] \<and>
   \<not> is_space (hd (clean_text (utext ''a '' @ [BULLET, NEWLINE, REPLACEMENT_CHAR, 0] @ utext ''c''))) \<and>
   \<not> is_space (last (clean_text (utext ''a '' @ [BULLET, NEWLINE, REPLACEMENT_CHAR, 0] @ utext ''c''))) \<and>
   bullets_spaced (clean_text (utext ''a '' @ [BULLET, NEWLINE, REPLACEMENT_CHAR, 0] @ utext ''c'')) \<and>
   padding_only None (clean_text (utext ''a '' @ [BULLET, NEWLINE, REPLACEMENT_CHAR, 0] @ utext ''c'')) \<and>
   BULLET \<notin> set (utext ''a '' @ [NEWLINE, 9] @ utext ''b  c '') \<and>
   REPLACEMENT_CHAR \<notin> set (utext ''a '' @ [NEWLINE, 9] @ utext ''b  c '') \<and>
   single_spaced (clean_text (utext ''a '' @ [NEWLINE, 9] @ utext ''b  c '')) \<and>
   clean_text (utext ''a '' @ [NEWLINE, 9] @ utext ''b  c '') = utext ''a b c''"
proof -
  have h1: "SPACE \<in> set (clean_text (utext ''a '' @ [BULLET, NEWLINE, REPLACEMENT_CHAR, 0] @ utext ''c''))"
    by code_simp
  have h2: "is_space SPACE"
    by code_simp
  have h3: "clean_text (utext ''a '' @ [BULLET, NEWLINE, REPLACEMENT_CHAR, 0] @ utext ''c'') \<noteq> []"
    by code_simp
  have h4: "BULLET \<notin> set (utext ''a '' @ [NEWLINE, 9] @ utext ''b  c '') \<and>
            REPLACEMENT_CHAR \<notin> set (utext ''a '' @ [NEWLINE, 9] @ utext ''b  c '')"
    by code_simp
  have h5: "clean_text (utext ''a '' @ [NEWLINE, 9] @ utext ''b  c '') = utext ''a b c''"
    by code_simp
  note t1 = clean_text_normal_form
    [of "utext ''a '' @ [BULLET, NEWLINE, REPLACEMENT_CHAR, 0] @ utext ''c''", THEN conjunct2]
  note t2 = clean_text_normal_form
    [of "utext ''a '' @ [NEWLINE, 9] @ utext ''b  c ''", THEN conjunct2]
  from t1 t2 h1 h2 h3 h4 h5 show ?thesis by blast
qed

section \<open>Properties of the tailoring orchestrator\<close>

text \<open>
  C8: a request in which the job title, the company name or the job description is empty
  after stripping is rejected with the status 400 and no step of the pipeline is run, no
  ranking and no rendering. A request with all three fields is rejected with the message
  of the missing resume template when that template is absent, and with the message of the
  missing cover letter template when the resume template is there and the cover letter
  template is absent, again before any step of the pipeline.
\<close>

theorem process_job_rejects_early:
  "(form_field env ''job_title'' = [] \<or> form_field env ''company_name'' = [] \<or>
    form_field env ''job_description'' = [] \<longrightarrow>
      process_job U env = (Error_reply 400 (utext ''All fields are required''), [])) \<and>
   (form_field env ''job_title'' \<noteq> [] \<and> form_field env ''company_name'' \<noteq> [] \<and>
    form_field env ''job_description'' \<noteq> [] \<longrightarrow>
      (text_files env resume_text_path = None \<longrightarrow>
         process_job U env =
           (Error_reply 400 (utext ''Resume template not found. Please upload a resume first.''),
            [])) \<and>
      (text_files env resume_text_path \<noteq> None \<and> text_files env cover_text_path = None \<longrightarrow>
         process_job U env =
           (Error_reply 400
              (utext ''Cover letter template not found. Please upload a cover letter first.''),
            [])))"
  by (auto simp: process_job_def Let_def split: option.splits)

text \<open>
  C8, witness: a request with a blank job title, one without templates and one with the
  resume template only.
\<close>

theorem process_job_rejects_early_witness:
  "form_field demo_env_blank_title ''job_title'' = [] \<and>
   process_job ascii_db demo_env_blank_title =
     (Error_reply 400 (utext ''All fields are required''), []) \<and>
   form_field demo_env_no_resume ''job_title'' \<noteq> [] \<and>
   form_field demo_env_no_resume ''company_name'' \<noteq> [] \<and>
   form_field demo_env_no_resume ''job_description'' \<noteq> [] \<and>
   text_files demo_env_no_resume resume_text_path = None \<and>
   process_job ascii_db demo_env_no_resume =
     (Error_reply 400 (utext ''Resume template not found. Please upload a resume first.''), []) \<and>
   form_field demo_env_no_cover ''job_title'' \<noteq> [] \<and>
   form_field demo_env_no_cover ''company_name'' \<noteq> [] \<and>
   form_field demo_env_no_cover ''job_description'' \<noteq> [] \<and>
   text_files demo_env_no_cover resume_text_path \<noteq> None \<and>
   text_files demo_env_no_cover cover_text_path = None \<and>
   process_job ascii_db demo_env_no_cover =
     (Error_reply 400
        (utext ''Cover letter template not found. Please upload a cover letter first.''), [])"
proof -
  have a: "form_field demo_env_blank_title ''job_title'' = []"
    by code_simp
  have b: "form_field demo_env_no_resume ''job_title'' \<noteq> [] \<and>
           form_field demo_env_no_resume ''company_name'' \<noteq> [] \<and>
           form_field demo_env_no_resume ''job_description'' \<noteq> []"
    by code_simp
  have c: "text_files demo_env_no_resume resume_text_path = None"
    by code_simp
  have d: "form_field demo_env_no_cover ''job_title'' \<noteq> [] \<and>
           form_field demo_env_no_cover ''company_name'' \<noteq> [] \<and>
           form_field demo_env_no_cover ''job_description'' \<noteq> []"
    by code_simp
  have e: "text_files demo_env_no_cover resume_text_path \<noteq> None \<and>
           text_files demo_env_no_cover cover_text_path = None"
    by code_simp
  from process_job_rejects_early [of demo_env_blank_title ascii_db]
       process_job_rejects_early [of demo_env_no_resume ascii_db]
       process_job_rejects_early [of demo_env_no_cover ascii_db]
       a b c d e
  show ?thesis by blast
qed

text \<open>
  C9: when the call of the text generator raises an exception of \<open>requests\<close>, or answers
  with a status other than 200, \<open>generate_cover_with_ollama\<close> returns a message as the
  text of the cover letter. For a request with all fields and both templates,
  \<open>process_job\<close> goes through the ranking, the rewriting, the generation and the rendering
  of both documents, the cover letter from the text that the generation returned; and when
  both documents are rendered and the archive is written, it replies with the success and
  has bundled both documents.
\<close>

theorem generation_failure_degrades:
  "(let job_title = form_field env ''job_title'';
        company_name = form_field env ''company_name'';
        job_description = form_field env ''job_description'';
        payload = cover_payload resume_text cover_template job_title company_name job_description;
        generated_cover = generate_cover_with_ollama (post env) resume_text cover_template
                            job_title company_name job_description;
        keywords = extract_keywords U job_description 10;
        polished_resume = polish_resume U resume_text keywords job_title company_name;
        resume_pdf_path = path_join [UPLOAD_FOLDER, resume_pdf_name (now env)];
        cover_pdf_path = path_join [UPLOAD_FOLDER, cover_pdf_name (now env)];
        zip_path = path_join [UPLOAD_FOLDER, zip_name (now env)];
        resume_title = utext ''Tailored Resume - '' @ job_title;
        cover_title = utext ''Cover Letter - '' @ job_title;
        calls = [Extract_keywords job_description 10, Polish_resume keywords, Generate_cover,
                 Create_pdf polished_resume resume_pdf_path resume_title,
                 Create_pdf generated_cover cover_pdf_path cover_title]
    in
      ((\<exists>msg. post env OLLAMA_URL payload = Inl (RequestException msg)) \<longrightarrow>
         generated_cover =
           utext ''Error: Could not connect to Ollama. Please ensure Ollama is running on ''
           @ utext ''http://localhost:11434/api/generate'') \<and>
      (\<forall>response. post env OLLAMA_URL payload = Inr response \<and> status_code response \<noteq> 200 \<longrightarrow>
         generated_cover =
           utext ''Error generating cover letter: Ollama API returned ''
           @ py_str_int (status_code response)) \<and>
      (job_title \<noteq> [] \<and> company_name \<noteq> [] \<and> job_description \<noteq> [] \<and>
       text_files env resume_text_path = Some (Inr resume_text) \<and>
       text_files env cover_text_path = Some (Inr cover_template) \<longrightarrow>
         (snd (process_job U env) = calls \<or>
          snd (process_job U env) = calls @ [Zip_write zip_path [resume_pdf_path, cover_pdf_path]]) \<and>
         (create_pdf (fpdf env) polished_resume resume_pdf_path resume_title \<and>
          create_pdf (fpdf env) generated_cover cover_pdf_path cover_title \<and>
          zip_write env zip_path
            [(resume_pdf_path, resume_pdf_name (now env)),
             (cover_pdf_path, cover_pdf_name (now env))] = Inr () \<longrightarrow>
            process_job U env =
              (Success_reply resume_pdf_path cover_pdf_path zip_path keywords,
               calls @ [Zip_write zip_path [resume_pdf_path, cover_pdf_path]]))))"
  by (auto simp: process_job_def generate_cover_with_ollama_def Let_def OLLAMA_URL_def
      split: sum.splits exn.splits)

text \<open>
  C9, witness: a text generator that cannot be reached, and one that answers with the
  status 500; in both requests the cover letter is rendered from the message and both
  documents are bundled.
\<close>

theorem generation_failure_degrades_witness:
  "post demo_env OLLAMA_URL (cover_payload demo_resume demo_cover (utext ''Developer'') (utext ''Acme'') (utext ''Python and Flask''))
     = Inl (RequestException (utext ''connection refused'')) \<and>
   generate_cover_with_ollama (post demo_env) demo_resume demo_cover (utext ''Developer'') (utext ''Acme'') (utext ''Python and Flask'')
     = (utext ''Error: Could not connect to Ollama. Please ensure Ollama is running on http://localhost:11434/api/generate'') \<and>
   process_job ascii_db demo_env =
     (Success_reply (utext ''uploads/tailored_resume_20240102_030405.pdf'')
        (utext ''uploads/tailored_cover_20240102_030405.pdf'')
        (utext ''uploads/job_package_20240102_030405.zip'')
        [utext ''python'', utext ''flask''],
      [Extract_keywords (utext ''Python and Flask'') 10,
       Polish_resume [utext ''python'', utext ''flask''],
       Generate_cover,
       Create_pdf (polish_resume ascii_db demo_resume [utext ''python'', utext ''flask''] (utext ''Developer'') (utext ''Acme''))
         (utext ''uploads/tailored_resume_20240102_030405.pdf'')
         (utext ''Tailored Resume - Developer''),
       Create_pdf (utext ''Error: Could not connect to Ollama. Please ensure Ollama is running on http://localhost:11434/api/generate'')
         (utext ''uploads/tailored_cover_20240102_030405.pdf'')
         (utext ''Cover Letter - Developer''),
       Zip_write (utext ''uploads/job_package_20240102_030405.zip'')
         [utext ''uploads/tailored_resume_20240102_030405.pdf'',
          utext ''uploads/tailored_cover_20240102_030405.pdf'']]) \<and>
   post demo_env_500 OLLAMA_URL (cover_payload demo_resume demo_cover (utext ''Developer'') (utext ''Acme'') (utext ''Python and Flask''))
     = Inr \<lparr>status_code = 500, json = Inl (OtherException (utext ''no JSON''))\<rparr> \<and>
   generate_cover_with_ollama (post demo_env_500) demo_resume demo_cover (utext ''Developer'') (utext ''Acme'') (utext ''Python and Flask'')
     = (utext ''Error generating cover letter: Ollama API returned 500'') \<and>
   process_job ascii_db demo_env_500 =
     (Success_reply (utext ''uploads/tailored_resume_20240102_030405.pdf'')
        (utext ''uploads/tailored_cover_20240102_030405.pdf'')
        (utext ''uploads/job_package_20240102_030405.zip'')
        [utext ''python'', utext ''flask''],
      [Extract_keywords (utext ''Python and Flask'') 10,
       Polish_resume [utext ''python'', utext ''flask''],
       Generate_cover,
       Create_pdf (polish_resume ascii_db demo_resume [utext ''python'', utext ''flask''] (utext ''Developer'') (utext ''Acme''))
         (utext ''uploads/tailored_resume_20240102_030405.pdf'')
         (utext ''Tailored Resume - Developer''),
       Create_pdf (utext ''Error generating cover letter: Ollama API returned 500'')
         (utext ''uploads/tailored_cover_20240102_030405.pdf'')
         (utext ''Cover Letter - Developer''),
       Zip_write (utext ''uploads/job_package_20240102_030405.zip'')
         [utext ''uploads/tailored_resume_20240102_030405.pdf'',
          utext ''uploads/tailored_cover_20240102_030405.pdf'']])"
proof -
  have f1: "form_field demo_env ''job_title'' = (utext ''Developer'')"
    "form_field demo_env ''company_name'' = (utext ''Acme'')"
    "form_field demo_env ''job_description'' = (utext ''Python and Flask'')"
    by code_simp+
  note t1 = generation_failure_degrades
    [of demo_env demo_resume demo_cover ascii_db, unfolded Let_def f1]
  have a1: "post demo_env OLLAMA_URL (cover_payload demo_resume demo_cover (utext ''Developer'') (utext ''Acme'') (utext ''Python and Flask'')) = Inl (RequestException (utext ''connection refused''))"
    by (simp add: demo_env_def)
  have v1: "(utext ''Developer'') \<noteq> [] \<and> (utext ''Acme'') \<noteq> [] \<and> (utext ''Python and Flask'') \<noteq> [] \<and>
      text_files demo_env resume_text_path = Some (Inr demo_resume) \<and>
      text_files demo_env cover_text_path = Some (Inr demo_cover)"
    by code_simp
  have r1: "create_pdf (fpdf demo_env) x y z" "zip_write demo_env p ms = Inr ()" for x y z p ms
    by (simp_all add: demo_env_500_def demo_env_def create_pdf_def)

  from t1 a1 have g1: "generate_cover_with_ollama (post demo_env) demo_resume demo_cover (utext ''Developer'') (utext ''Acme'') (utext ''Python and Flask'')
      = (utext ''Error: Could not connect to Ollama. Please ensure Ollama is running on ''
          @ utext ''http://localhost:11434/api/generate'')"
    by blast
  from t1 v1 r1 have p1: "process_job ascii_db demo_env =
     (Success_reply (path_join [UPLOAD_FOLDER, resume_pdf_name (now demo_env)])
        (path_join [UPLOAD_FOLDER, cover_pdf_name (now demo_env)])
        (path_join [UPLOAD_FOLDER, zip_name (now demo_env)])
        (extract_keywords ascii_db (utext ''Python and Flask'') 10),
      [Extract_keywords (utext ''Python and Flask'') 10,
       Polish_resume (extract_keywords ascii_db (utext ''Python and Flask'') 10),
       Generate_cover,
       Create_pdf (polish_resume ascii_db demo_resume (extract_keywords ascii_db (utext ''Python and Flask'') 10) (utext ''Developer'') (utext ''Acme''))
         (path_join [UPLOAD_FOLDER, resume_pdf_name (now demo_env)])
         (utext ''Tailored Resume - '' @ (utext ''Developer'')),
       Create_pdf (generate_cover_with_ollama (post demo_env) demo_resume demo_cover (utext ''Developer'') (utext ''Acme'') (utext ''Python and Flask''))
         (path_join [UPLOAD_FOLDER, cover_pdf_name (now demo_env)])
         (utext ''Cover Letter - '' @ (utext ''Developer''))]
      @ [Zip_write (path_join [UPLOAD_FOLDER, zip_name (now demo_env)])
           [path_join [UPLOAD_FOLDER, resume_pdf_name (now demo_env)],
            path_join [UPLOAD_FOLDER, cover_pdf_name (now demo_env)]]])"
    by blast
  have e1: "(utext ''Error: Could not connect to Ollama. Please ensure Ollama is running on ''
          @ utext ''http://localhost:11434/api/generate'')
      = (utext ''Error: Could not connect to Ollama. Please ensure Ollama is running on http://localhost:11434/api/generate'')"
    by code_simp
  have c1: "(Success_reply (path_join [UPLOAD_FOLDER, resume_pdf_name (now demo_env)])
        (path_join [UPLOAD_FOLDER, cover_pdf_name (now demo_env)])
        (path_join [UPLOAD_FOLDER, zip_name (now demo_env)])
        (extract_keywords ascii_db (utext ''Python and Flask'') 10),
      [Extract_keywords (utext ''Python and Flask'') 10,
       Polish_resume (extract_keywords ascii_db (utext ''Python and Flask'') 10),
       Generate_cover,
       Create_pdf (polish_resume ascii_db demo_resume (extract_keywords ascii_db (utext ''Python and Flask'') 10) (utext ''Developer'') (utext ''Acme''))
         (path_join [UPLOAD_FOLDER, resume_pdf_name (now demo_env)])
         (utext ''Tailored Resume - '' @ (utext ''Developer'')),
       Create_pdf (generate_cover_with_ollama (post demo_env) demo_resume demo_cover (utext ''Developer'') (utext ''Acme'') (utext ''Python and Flask''))
         (path_join [UPLOAD_FOLDER, cover_pdf_name (now demo_env)])
         (utext ''Cover Letter - '' @ (utext ''Developer''))]
      @ [Zip_write (path_join [UPLOAD_FOLDER, zip_name (now demo_env)])
           [path_join [UPLOAD_FOLDER, resume_pdf_name (now demo_env)],
            path_join [UPLOAD_FOLDER, cover_pdf_name (now demo_env)]]])
     = (Success_reply (utext ''uploads/tailored_resume_20240102_030405.pdf'')
        (utext ''uploads/tailored_cover_20240102_030405.pdf'')
        (utext ''uploads/job_package_20240102_030405.zip'')
        [utext ''python'', utext ''flask''],
      [Extract_keywords (utext ''Python and Flask'') 10,
       Polish_resume [utext ''python'', utext ''flask''],
       Generate_cover,
       Create_pdf (polish_resume ascii_db demo_resume [utext ''python'', utext ''flask''] (utext ''Developer'') (utext ''Acme''))
         (utext ''uploads/tailored_resume_20240102_030405.pdf'')
         (utext ''Tailored Resume - Developer''),
       Create_pdf (utext ''Error: Could not connect to Ollama. Please ensure Ollama is running on http://localhost:11434/api/generate'')
         (utext ''uploads/tailored_cover_20240102_030405.pdf'')
         (utext ''Cover Letter - Developer''),
       Zip_write (utext ''uploads/job_package_20240102_030405.zip'')
         [utext ''uploads/tailored_resume_20240102_030405.pdf'',
          utext ''uploads/tailored_cover_20240102_030405.pdf'']])"
    by code_simp
  have f2: "form_field demo_env_500 ''job_title'' = (utext ''Developer'')"
    "form_field demo_env_500 ''company_name'' = (utext ''Acme'')"
    "form_field demo_env_500 ''job_description'' = (utext ''Python and Flask'')"
    by code_simp+
  note t2 = generation_failure_degrades
    [of demo_env_500 demo_resume demo_cover ascii_db, unfolded Let_def f2]
  have a2: "post demo_env_500 OLLAMA_URL (cover_payload demo_resume demo_cover (utext ''Developer'') (utext ''Acme'') (utext ''Python and Flask'')) = Inr \<lparr>status_code = 500, json = Inl (OtherException (utext ''no JSON''))\<rparr>"
    by (simp add: demo_env_500_def)
  have v2: "(utext ''Developer'') \<noteq> [] \<and> (utext ''Acme'') \<noteq> [] \<and> (utext ''Python and Flask'') \<noteq> [] \<and>
      text_files demo_env_500 resume_text_path = Some (Inr demo_resume) \<and>
      text_files demo_env_500 cover_text_path = Some (Inr demo_cover)"
    by code_simp
  have r2: "create_pdf (fpdf demo_env_500) x y z" "zip_write demo_env_500 p ms = Inr ()" for x y z p ms
    by (simp_all add: demo_env_500_def demo_env_def create_pdf_def)

  have s2: "status_code \<lparr>status_code = 500, json = Inl (OtherException (utext ''no JSON''))\<rparr> \<noteq> 200"
    by simp
  from t2 a2 s2 have g2: "generate_cover_with_ollama (post demo_env_500) demo_resume demo_cover (utext ''Developer'') (utext ''Acme'') (utext ''Python and Flask'')
      = utext ''Error generating cover letter: Ollama API returned ''
          @ py_str_int (status_code \<lparr>status_code = 500, json = Inl (OtherException (utext ''no JSON''))\<rparr>)"
    by blast
  from t2 v2 r2 have p2: "process_job ascii_db demo_env_500 =
     (Success_reply (path_join [UPLOAD_FOLDER, resume_pdf_name (now demo_env_500)])
        (path_join [UPLOAD_FOLDER, cover_pdf_name (now demo_env_500)])
        (path_join [UPLOAD_FOLDER, zip_name (now demo_env_500)])
        (extract_keywords ascii_db (utext ''Python and Flask'') 10),
      [Extract_keywords (utext ''Python and Flask'') 10,
       Polish_resume (extract_keywords ascii_db (utext ''Python and Flask'') 10),
       Generate_cover,
       Create_pdf (polish_resume ascii_db demo_resume (extract_keywords ascii_db (utext ''Python and Flask'') 10) (utext ''Developer'') (utext ''Acme''))
         (path_join [UPLOAD_FOLDER, resume_pdf_name (now demo_env_500)])
         (utext ''Tailored Resume - '' @ (utext ''Developer'')),
       Create_pdf (generate_cover_with_ollama (post demo_env_500) demo_resume demo_cover (utext ''Developer'') (utext ''Acme'') (utext ''Python and Flask''))
         (path_join [UPLOAD_FOLDER, cover_pdf_name (now demo_env_500)])
         (utext ''Cover Letter - '' @ (utext ''Developer''))]
      @ [Zip_write (path_join [UPLOAD_FOLDER, zip_name (now demo_env_500)])
           [path_join [UPLOAD_FOLDER, resume_pdf_name (now demo_env_500)],
            path_join [UPLOAD_FOLDER, cover_pdf_name (now demo_env_500)]]])"
    by blast
  have e2: "utext ''Error generating cover letter: Ollama API returned ''
          @ py_str_int (status_code \<lparr>status_code = 500, json = Inl (OtherException (utext ''no JSON''))\<rparr>)
      = (utext ''Error generating cover letter: Ollama API returned 500'')"
    by code_simp
  have c2: "(Success_reply (path_join [UPLOAD_FOLDER, resume_pdf_name (now demo_env_500)])
        (path_join [UPLOAD_FOLDER, cover_pdf_name (now demo_env_500)])
        (path_join [UPLOAD_FOLDER, zip_name (now demo_env_500)])
        (extract_keywords ascii_db (utext ''Python and Flask'') 10),
      [Extract_keywords (utext ''Python and Flask'') 10,
       Polish_resume (extract_keywords ascii_db (utext ''Python and Flask'') 10),
       Generate_cover,
       Create_pdf (polish_resume ascii_db demo_resume (extract_keywords ascii_db (utext ''Python and Flask'') 10) (utext ''Developer'') (utext ''Acme''))
         (path_join [UPLOAD_FOLDER, resume_pdf_name (now demo_env_500)])
         (utext ''Tailored Resume - '' @ (utext ''Developer'')),
       Create_pdf (generate_cover_with_ollama (post demo_env_500) demo_resume demo_cover (utext ''Developer'') (utext ''Acme'') (utext ''Python and Flask''))
         (path_join [UPLOAD_FOLDER, cover_pdf_name (now demo_env_500)])
         (utext ''Cover Letter - '' @ (utext ''Developer''))]
      @ [Zip_write (path_join [UPLOAD_FOLDER, zip_name (now demo_env_500)])
           [path_join [UPLOAD_FOLDER, resume_pdf_name (now demo_env_500)],
            path_join [UPLOAD_FOLDER, cover_pdf_name (now demo_env_500)]]])
     = (Success_reply (utext ''uploads/tailored_resume_20240102_030405.pdf'')
        (utext ''uploads/tailored_cover_20240102_030405.pdf'')
        (utext ''uploads/job_package_20240102_030405.zip'')
        [utext ''python'', utext ''flask''],
      [Extract_keywords (utext ''Python and Flask'') 10,
       Polish_resume [utext ''python'', utext ''flask''],
       Generate_cover,
       Create_pdf (polish_resume ascii_db demo_resume [utext ''python'', utext ''flask''] (utext ''Developer'') (utext ''Acme''))
         (utext ''uploads/tailored_resume_20240102_030405.pdf'')
         (utext ''Tailored Resume - Developer''),
       Create_pdf (utext ''Error generating cover letter: Ollama API returned 500'')
         (utext ''uploads/tailored_cover_20240102_030405.pdf'')
         (utext ''Cover Letter - Developer''),
       Zip_write (utext ''uploads/job_package_20240102_030405.zip'')
         [utext ''uploads/tailored_resume_20240102_030405.pdf'',
          utext ''uploads/tailored_cover_20240102_030405.pdf'']])"
    by code_simp
  from a1 g1 e1 p1 c1 a2 g2 e2 p2 c2 show ?thesis
    by (simp only:)
qed

end
